theory Spec2Isabelle
  imports Main "HOL-Library.Finite_Map" "HOL-Library.Char_ord" "HOL-Library.List_Lexorder"
begin

section \<open>Data model of json.go\<close>

text \<open>
  A Go \<^verbatim>\<open>[]byte\<close> is a list of 8-bit characters; a nil slice and an empty slice are both
  the empty list. A Go \<^verbatim>\<open>map[string]interface{}\<close> is a finite map whose values are of an
  arbitrary type \<open>'v\<close> (whatever the interface holds); where the code distinguishes the nil
  map from an allocated one the model uses \<open>option\<close>, with \<open>None\<close> for nil.
\<close>

type_synonym bytes = string

type_synonym 'v gomap = "(string, 'v) fmap"

datatype error =
    JsonError string
  | Wrapped string error
  | ErrContentFieldsMisused
  | NilMapAssignment

text \<open>
  \<open>JsonError\<close> is an error value of encoding/json, \<open>Wrapped msg e\<close> is
  \<^verbatim>\<open>fmt.Errorf(msg + ": %w", e)\<close>, and \<open>NilMapAssignment\<close> is the run-time panic of an
  assignment to an entry of a nil map.
\<close>

record 'v RawExtensions =
  Extensions :: "'v gomap option"
  RawData :: bytes
  ExtensionRawData :: bytes

definition len_map :: "'v gomap option \<Rightarrow> nat" where
  "len_map m = (case m of None \<Rightarrow> 0 | Some f \<Rightarrow> fcard (fmdom f))"

definition range_map :: "'v gomap option \<Rightarrow> 'v gomap" where
  "range_map m = (case m of None \<Rightarrow> fmempty | Some f \<Rightarrow> f)"

text \<open>
  \<open>len_map\<close> is Go's \<^verbatim>\<open>len\<close> on a map and \<open>range_map\<close> the entries a
  \<^verbatim>\<open>range\<close> loop visits: none for the nil map.
\<close>

definition SetExtension :: "'v RawExtensions \<Rightarrow> string \<Rightarrow> 'v \<Rightarrow> 'v RawExtensions" where
  "SetExtension r key val =
     (let r1 = (if Extensions r = None then r\<lparr>Extensions := Some fmempty\<rparr> else r)
      in r1\<lparr>Extensions := Some (fmupd key val (range_map (Extensions r1)))\<rparr>)"

text \<open>
  \<open>GetExtension\<close> returns Go's pair \<^verbatim>\<open>(value, exists)\<close>; the value is \<open>None\<close> where Go
  returns the nil interface for a missing key.
\<close>

definition GetExtension :: "'v RawExtensions \<Rightarrow> string \<Rightarrow> 'v option \<times> bool" where
  "GetExtension r key =
     (case Extensions r of
        None \<Rightarrow> (None, False)
      | Some m \<Rightarrow> (fmlookup m key, fmlookup m key \<noteq> None))"

definition GetExtensions :: "'v RawExtensions \<Rightarrow> 'v RawExtensions \<times> 'v gomap" where
  "GetExtensions r =
     (let r1 = (if Extensions r = None then r\<lparr>Extensions := Some fmempty\<rparr> else r)
      in (r1, range_map (Extensions r1)))"

definition SetRawData :: "'v RawExtensions \<Rightarrow> bytes \<Rightarrow> 'v RawExtensions" where
  "SetRawData r data = r\<lparr>RawData := take (length data) data\<rparr>"

definition GetRawData :: "'v RawExtensions \<Rightarrow> bytes" where
  "GetRawData r = RawData r"

definition GetExtensionRawData :: "'v RawExtensions \<Rightarrow> bytes" where
  "GetExtensionRawData r = ExtensionRawData r"

section \<open>The encoding/json package as a parameter\<close>

text \<open>
  json.go calls \<^verbatim>\<open>json.Marshal\<close> and \<^verbatim>\<open>json.Unmarshal\<close> of Go's standard library at
  two types each: the typed target (a pointer to a struct) and
  \<^verbatim>\<open>map[string]interface{}\<close>. The package is not part of the repository, so the four
  uses are parameters of the codec:
  \<^item> \<open>marshal_target t\<close> is \<^verbatim>\<open>json.Marshal(target)\<close>;
  \<^item> \<open>unmarshal_target data t\<close> is \<^verbatim>\<open>json.Unmarshal(data, target)\<close>: it returns the
    target as the call leaves it (Go writes through the pointer, also when it fails) and
    the error, if any;
  \<^item> \<open>marshal_map m\<close> is \<^verbatim>\<open>json.Marshal(m)\<close> for an allocated map \<open>m\<close>;
  \<^item> \<open>unmarshal_map data\<close> is \<^verbatim>\<open>json.Unmarshal(data, &m)\<close> for a nil map variable
    \<open>m\<close>: it returns the error or the map the variable holds afterwards, which is still
    nil (\<open>None\<close>) when the document is \<^verbatim>\<open>null\<close>.
\<close>

record ('t, 'v) json_pkg =
  marshal_target :: "'t \<Rightarrow> error + bytes"
  unmarshal_target :: "bytes \<Rightarrow> 't \<Rightarrow> 't \<times> error option"
  marshal_map :: "'v gomap \<Rightarrow> error + bytes"
  unmarshal_map :: "bytes \<Rightarrow> error + 'v gomap option"

section \<open>The extension-preserving codec (json.go)\<close>

text \<open>
  \<open>getKnownFields\<close> returns a \<^verbatim>\<open>map[string]bool\<close>; both failures return the empty map.
  \<open>known kf key\<close> is the Go lookup \<^verbatim>\<open>knownFields[key]\<close>, false for a missing key.
\<close>

definition getKnownFields :: "('t, 'v) json_pkg \<Rightarrow> 't \<Rightarrow> (string, bool) fmap" where
  "getKnownFields J target =
     (case marshal_target J target of
        Inl err \<Rightarrow> fmempty
      | Inr targetBytes \<Rightarrow>
          (case unmarshal_map J targetBytes of
             Inl err \<Rightarrow> fmempty
           | Inr targetMap \<Rightarrow> fmmap (\<lambda>_. True) (range_map targetMap)))"

definition known :: "(string, bool) fmap \<Rightarrow> string \<Rightarrow> bool" where
  "known knownFields key = (case fmlookup knownFields key of None \<Rightarrow> False | Some b \<Rightarrow> b)"

text \<open>
  The target and the extension store are passed separately and returned updated. In the
  callers of chat\_stream.go both point into the same record, but every field of the
  embedded store carries the tag \<^verbatim>\<open>json:"-"\<close>, so the package neither reads nor writes
  the store through the target. The loop over \<^verbatim>\<open>allFields\<close> copies the entries whose key
  is not known into a fresh map: a filter, whatever order Go visits the entries in.
\<close>

definition UnmarshalWithExtensions ::
  "('t, 'v) json_pkg \<Rightarrow> bytes \<Rightarrow> 't \<Rightarrow> 'v RawExtensions \<Rightarrow> 't \<times> 'v RawExtensions \<times> error option"
where
  "UnmarshalWithExtensions J data target extensions =
     (let ext1 = SetRawData extensions data;
          (target1, err1) = unmarshal_target J data target
      in case err1 of
           Some err \<Rightarrow> (target1, ext1, Some (Wrapped ''failed to unmarshal target'' err))
         | None \<Rightarrow>
            (case unmarshal_map J data of
               Inl err \<Rightarrow> (target1, ext1, Some (Wrapped ''failed to unmarshal to map'' err))
             | Inr allFields \<Rightarrow>
                (let knownFields = getKnownFields J target1;
                     extensionFields =
                       fmfilter (\<lambda>key. \<not> known knownFields key) (range_map allFields)
                 in if len_map (Some extensionFields) > 0
                    then (let ext2 = ext1\<lparr>Extensions := Some extensionFields\<rparr>
                          in case marshal_map J extensionFields of
                               Inr extensionData \<Rightarrow>
                                 (target1, ext2\<lparr>ExtensionRawData := extensionData\<rparr>, None)
                             | Inl err \<Rightarrow> (target1, ext2, None))
                    else (target1, ext1, None))))"

text \<open>
  In \<open>MarshalWithExtensions\<close> the loop assigns every entry of \<^verbatim>\<open>extensions\<close> into
  \<^verbatim>\<open>baseMap\<close>: the right-biased union \<open>baseMap ++\<^sub>f extensions\<close>. When the base
  document is \<^verbatim>\<open>null\<close> the map variable is still nil and the first assignment panics.
\<close>

definition MarshalWithExtensions ::
  "('t, 'v) json_pkg \<Rightarrow> 't \<Rightarrow> 'v gomap option \<Rightarrow> error + bytes"
where
  "MarshalWithExtensions J target extensions =
     (case marshal_target J target of
        Inl err \<Rightarrow> Inl (Wrapped ''failed to marshal target'' err)
      | Inr baseData \<Rightarrow>
          if len_map extensions = 0 then Inr baseData
          else (case unmarshal_map J baseData of
                  Inl err \<Rightarrow> Inl (Wrapped ''failed to unmarshal base data'' err)
                | Inr None \<Rightarrow> Inl NilMapAssignment
                | Inr (Some baseMap) \<Rightarrow> marshal_map J (baseMap ++\<^sub>f range_map extensions)))"

text \<open>
  The two loops as Go runs them: over the entries of the map in some order, each key
  once. \<open>assign_entries\<close> is the loop of \<^verbatim>\<open>MarshalWithExtensions\<close> and \<open>copy_unknown\<close>
  the loop of \<^verbatim>\<open>UnmarshalWithExtensions\<close>, for a list of the entries in the order of the
  visit. Whatever the order, they compute the union and the filter used above
  (\<open>range_assign_is_union\<close>, \<open>range_copy_is_filter\<close>).
\<close>

definition assign_entries :: "(string \<times> 'v) list \<Rightarrow> 'v gomap \<Rightarrow> 'v gomap" where
  "assign_entries entries m = fold (\<lambda>(key, val) acc. fmupd key val acc) entries m"

definition copy_unknown :: "(string \<Rightarrow> bool) \<Rightarrow> (string \<times> 'v) list \<Rightarrow> 'v gomap \<Rightarrow> 'v gomap" where
  "copy_unknown is_known entries m =
     fold (\<lambda>(key, val) acc. if \<not> is_known key then fmupd key val acc else acc) entries m"

section \<open>A model of encoding/json on a fragment of JSON\<close>

text \<open>
  To run the codec on bytes the package is modelled on a fragment of JSON: \<^verbatim>\<open>null\<close>,
  booleans, integers, strings, arrays and objects. A document is a tree; an object keeps
  its members in document order. A string is a list of bytes and stands for valid UTF-8
  text: bytes above \<^verbatim>\<open>0x7f\<close> are written and read unchanged, as the package does for valid
  UTF-8, and the package's replacement of invalid UTF-8 is not modelled. A number is an
  integer; \<^verbatim>\<open>float64\<close> and its rounding are not modelled. Outside the fragment (numbers
  with a fraction or an exponent, escapes above \<^verbatim>\<open>\u007f\<close>) the model parser rejects what
  the package accepts. The printer writes what \<^verbatim>\<open>json.Marshal\<close> writes for such values:
  no white space, the escapes of the package for quotes, backslashes, control characters
  and \<^verbatim>\<open><\<close>, \<^verbatim>\<open>>\<close>, \<^verbatim>\<open>&\<close>. The values of an extension map are such documents: what
  decoding puts into a \<^verbatim>\<open>map[string]interface{}\<close>.
\<close>

datatype json = JNull | JBool bool | JNum int | JStr string | JArr "json list" | JObj "(string \<times> json) list"

definition digit_char :: "nat \<Rightarrow> char" where
  "digit_char n = char_of (48 + n)"

fun render_nat :: "nat \<Rightarrow> string" where
  "render_nat n = (if n < 10 then [digit_char n] else render_nat (n div 10) @ [digit_char (n mod 10)])"

declare render_nat.simps [simp del]

definition render_int :: "int \<Rightarrow> string" where
  "render_int i = (if i < 0 then CHR ''-'' # render_nat (nat (- i)) else render_nat (nat i))"

definition hex_digit :: "nat \<Rightarrow> char" where
  "hex_digit n = (if n < 10 then char_of (48 + n) else char_of (87 + n))"

definition escape_char :: "char \<Rightarrow> string" where
  "escape_char c =
     (if c = CHR 0x22 then [CHR 0x5C, CHR 0x22]
      else if c = CHR 0x5C then [CHR 0x5C, CHR 0x5C]
      else if c = CHR 0x0A then [CHR 0x5C, CHR ''n'']
      else if c = CHR 0x0D then [CHR 0x5C, CHR ''r'']
      else if c = CHR 0x09 then [CHR 0x5C, CHR ''t'']
      else if (of_char c :: nat) < 32 \<or> c = CHR ''<'' \<or> c = CHR ''>'' \<or> c = CHR ''&''
      then [CHR 0x5C, CHR ''u'', CHR ''0'', CHR ''0'',
            hex_digit (of_char c div 16), hex_digit (of_char c mod 16)]
      else [c])"

definition quote :: "string \<Rightarrow> string" where
  "quote s = CHR 0x22 # concat (map escape_char s) @ [CHR 0x22]"

fun commas :: "string list \<Rightarrow> string" where
  "commas [] = []"
| "commas [x] = x"
| "commas (x # y # ys) = x @ CHR '','' # commas (y # ys)"

fun render :: "json \<Rightarrow> string" where
  "render JNull = ''null''"
| "render (JBool b) = (if b then ''true'' else ''false'')"
| "render (JNum i) = render_int i"
| "render (JStr s) = quote s"
| "render (JArr xs) = CHR ''['' # commas (map render xs) @ '']''"
| "render (JObj ms) = CHR ''{'' # commas (map (\<lambda>(k, v). quote k @ CHR '':'' # render v) ms) @ ''}''"

text \<open>
  The parser reads one value and returns the rest of the input. Its first argument bounds
  the depth of the calls; \<open>parse_json\<close> gives it twice the length of the input, which
  no call chain exceeds, since every second call consumes a character.
\<close>

definition is_ws :: "char \<Rightarrow> bool" where
  "is_ws c \<longleftrightarrow> c = CHR '' '' \<or> c = CHR 0x09 \<or> c = CHR 0x0A \<or> c = CHR 0x0D"

definition skip_ws :: "string \<Rightarrow> string" where
  "skip_ws s = dropWhile is_ws s"

definition expect :: "char \<Rightarrow> string \<Rightarrow> string option" where
  "expect c s = (case skip_ws s of [] \<Rightarrow> None | d # r \<Rightarrow> if d = c then Some r else None)"

definition is_digit :: "char \<Rightarrow> bool" where
  "is_digit c \<longleftrightarrow> 48 \<le> (of_char c :: nat) \<and> (of_char c :: nat) \<le> 57"

definition hex_val :: "char \<Rightarrow> nat option" where
  "hex_val c =
     (let n = (of_char c :: nat)
      in if 48 \<le> n \<and> n \<le> 57 then Some (n - 48)
         else if 97 \<le> n \<and> n \<le> 102 then Some (n - 87)
         else if 65 \<le> n \<and> n \<le> 70 then Some (n - 55)
         else None)"

definition parse_hex4 :: "string \<Rightarrow> (nat \<times> string) option" where
  "parse_hex4 s =
     (case s of
        a # b # c # d # r \<Rightarrow>
          (case (hex_val a, hex_val b, hex_val c, hex_val d) of
             (Some x, Some y, Some z, Some w) \<Rightarrow> Some (((x * 16 + y) * 16 + z) * 16 + w, r)
           | _ \<Rightarrow> None)
      | _ \<Rightarrow> None)"

fun parse_string :: "string \<Rightarrow> (string \<times> string) option" where
  "parse_string [] = None"
| "parse_string [c] = (if c = CHR 0x22 then Some ([], []) else None)"
| "parse_string (c # e # r) =
     (if c = CHR 0x22 then Some ([], e # r)
      else if c = CHR 0x5C then
        (if e = CHR ''u'' then
           (case parse_hex4 r of
              None \<Rightarrow> None
            | Some (n, r') \<Rightarrow>
                if n < 128 then map_option (apfst ((#) (char_of n))) (parse_string (drop 4 r))
                else None)
         else
           (case (if e = CHR 0x22 \<or> e = CHR 0x5C \<or> e = CHR ''/'' then Some e
                  else if e = CHR ''n'' then Some (CHR 0x0A)
                  else if e = CHR ''r'' then Some (CHR 0x0D)
                  else if e = CHR ''t'' then Some (CHR 0x09)
                  else if e = CHR ''b'' then Some (CHR 0x08)
                  else if e = CHR ''f'' then Some (CHR 0x0C)
                  else None) of
              None \<Rightarrow> None
            | Some x \<Rightarrow> map_option (apfst ((#) x)) (parse_string r)))
      else if (of_char c :: nat) < 32 then None
      else map_option (apfst ((#) c)) (parse_string (e # r)))"

definition digits_val :: "string \<Rightarrow> nat" where
  "digits_val ds = foldl (\<lambda>a d. 10 * a + (of_char d - 48)) 0 ds"

definition parse_nat :: "string \<Rightarrow> (nat \<times> string) option" where
  "parse_nat s =
     (let ds = takeWhile is_digit s; r = dropWhile is_digit s
      in if ds = [] \<or> (length ds > 1 \<and> hd ds = CHR ''0'') then None
         else (case r of
                 [] \<Rightarrow> Some (digits_val ds, r)
               | c # _ \<Rightarrow> if c = CHR ''.'' \<or> c = CHR ''e'' \<or> c = CHR ''E'' then None
                          else Some (digits_val ds, r)))"

definition parse_number :: "string \<Rightarrow> (json \<times> string) option" where
  "parse_number s =
     (case s of
        [] \<Rightarrow> None
      | c # r \<Rightarrow>
          if c = CHR ''-'' then map_option (apfst (\<lambda>n. JNum (- int n))) (parse_nat r)
          else map_option (apfst (\<lambda>n. JNum (int n))) (parse_nat s))"

fun parse_value :: "nat \<Rightarrow> string \<Rightarrow> (json \<times> string) option"
  and parse_elems :: "nat \<Rightarrow> string \<Rightarrow> (json list \<times> string) option"
  and parse_members :: "nat \<Rightarrow> string \<Rightarrow> ((string \<times> json) list \<times> string) option"
where
  "parse_value 0 s = None"
| "parse_value (Suc n) s =
     (case skip_ws s of
        [] \<Rightarrow> None
      | c # r \<Rightarrow>
          if c = CHR ''n'' then (if take 3 r = ''ull'' then Some (JNull, drop 3 r) else None)
          else if c = CHR ''t'' then (if take 3 r = ''rue'' then Some (JBool True, drop 3 r) else None)
          else if c = CHR ''f'' then (if take 4 r = ''alse'' then Some (JBool False, drop 4 r) else None)
          else if c = CHR 0x22 then map_option (apfst JStr) (parse_string r)
          else if c = CHR ''['' then
            (case expect (CHR '']'') r of
               Some r' \<Rightarrow> Some (JArr [], r')
             | None \<Rightarrow> map_option (apfst JArr) (parse_elems n r))
          else if c = CHR ''{'' then
            (case expect (CHR ''}'') r of
               Some r' \<Rightarrow> Some (JObj [], r')
             | None \<Rightarrow> map_option (apfst JObj) (parse_members n r))
          else parse_number (c # r))"
| "parse_elems 0 s = None"
| "parse_elems (Suc n) s =
     (case parse_value n s of
        None \<Rightarrow> None
      | Some (v, r) \<Rightarrow>
          (case expect (CHR '','') r of
             Some r' \<Rightarrow> map_option (apfst ((#) v)) (parse_elems n r')
           | None \<Rightarrow> map_option (Pair [v]) (expect (CHR '']'') r)))"
| "parse_members 0 s = None"
| "parse_members (Suc n) s =
     (case expect (CHR 0x22) s of
        None \<Rightarrow> None
      | Some r \<Rightarrow>
          (case parse_string r of
             None \<Rightarrow> None
           | Some (k, r1) \<Rightarrow>
               (case expect (CHR '':'') r1 of
                  None \<Rightarrow> None
                | Some r2 \<Rightarrow>
                    (case parse_value n r2 of
                       None \<Rightarrow> None
                     | Some (v, r3) \<Rightarrow>
                         (case expect (CHR '','') r3 of
                            Some r4 \<Rightarrow> map_option (apfst ((#) (k, v))) (parse_members n r4)
                          | None \<Rightarrow> map_option (Pair [(k, v)]) (expect (CHR ''}'') r3))))))"

definition parse_json :: "string \<Rightarrow> json option" where
  "parse_json s =
     (case parse_value (2 * length s + 2) s of
        None \<Rightarrow> None
      | Some (v, r) \<Rightarrow> if skip_ws r = [] then Some v else None)"

text \<open>
  Notions used to state how the parser reads a printed document: \<open>number_end\<close> and
  \<open>delim\<close> say what may follow a number and a value, \<open>starts_value\<close> what a printed
  value begins with, and \<open>render_member\<close> is the text of one member of an object.
\<close>

definition number_end :: "string \<Rightarrow> bool" where
  "number_end rest \<longleftrightarrow>
     (case rest of [] \<Rightarrow> True
      | c # _ \<Rightarrow> \<not> is_digit c \<and> c \<noteq> CHR ''.'' \<and> c \<noteq> CHR ''e'' \<and> c \<noteq> CHR ''E'')"

definition delim :: "string \<Rightarrow> bool" where
  "delim rest \<longleftrightarrow>
     (case rest of [] \<Rightarrow> True | c # _ \<Rightarrow> c = CHR '','' \<or> c = CHR '']'' \<or> c = CHR ''}'')"

definition starts_value :: "char \<Rightarrow> bool" where
  "starts_value c \<longleftrightarrow>
     \<not> is_ws c \<and> c \<noteq> CHR '']'' \<and> c \<noteq> CHR ''}'' \<and> c \<noteq> CHR '','' \<and> c \<noteq> CHR '':''"

definition render_member :: "string \<times> json \<Rightarrow> string" where
  "render_member m = quote (fst m) @ CHR '':'' # render (snd m)"

section \<open>The stream delta record (chat\_stream.go)\<close>

text \<open>
  \<^verbatim>\<open>ChatCompletionStreamChoiceDelta\<close> is its six tagged fields, which are all the
  package sees of it, together with the embedded extension store, whose fields are
  tagged \<^verbatim>\<open>json:"-"\<close>. The declarations of \<^verbatim>\<open>FunctionCall\<close> and \<^verbatim>\<open>ToolCall\<close> are not among
  the sources; the tests build both as structs, which the package writes as objects. A
  function call and a tool call are kept as the members of the object they are written
  as, the nil pointer is \<open>None\<close>, and a nil slice is the empty list.
\<close>

type_synonym object = "(string \<times> json) list"

record delta_fields =
  Content :: string
  ReasoningContent :: string
  Role :: string
  FunctionCall :: "object option"
  ToolCalls :: "object list"
  Refusal :: string

record ChatCompletionStreamChoiceDelta =
  Fields :: delta_fields
  Store :: "json RawExtensions"

text \<open>
  The fields in the order of the declaration, each with its tag name.
\<close>

datatype delta_field = FContent | FReasoningContent | FRole | FFunctionCall | FToolCalls | FRefusal

definition Delta_tags :: "(string \<times> delta_field) list" where
  "Delta_tags =
     [(''content'', FContent), (''reasoning_content'', FReasoningContent), (''role'', FRole),
      (''function_call'', FFunctionCall), (''tool_calls'', FToolCalls), (''refusal'', FRefusal)]"

text \<open>
  What \<^verbatim>\<open>json.Marshal\<close> emits for the alias of the record: the members in the order of
  the declaration, each under its tag name; every field is tagged \<^verbatim>\<open>omitempty\<close>, so an
  empty string, a nil pointer and an empty slice are left out. \<open>field_value f d\<close> is the
  JSON value of the field \<open>f\<close>, \<open>field_empty f d\<close> the emptiness that
  \<^verbatim>\<open>omitempty\<close> tests, and \<open>member_of f d\<close> the value written for the field, or
  \<open>None\<close> when the field is left out.
\<close>

definition field_value :: "delta_field \<Rightarrow> delta_fields \<Rightarrow> json" where
  "field_value f d =
     (case f of
        FContent \<Rightarrow> JStr (Content d)
      | FReasoningContent \<Rightarrow> JStr (ReasoningContent d)
      | FRole \<Rightarrow> JStr (Role d)
      | FFunctionCall \<Rightarrow> (case FunctionCall d of None \<Rightarrow> JNull | Some c \<Rightarrow> JObj c)
      | FToolCalls \<Rightarrow> JArr (map JObj (ToolCalls d))
      | FRefusal \<Rightarrow> JStr (Refusal d))"

definition field_empty :: "delta_field \<Rightarrow> delta_fields \<Rightarrow> bool" where
  "field_empty f d =
     (case f of
        FContent \<Rightarrow> Content d = []
      | FReasoningContent \<Rightarrow> ReasoningContent d = []
      | FRole \<Rightarrow> Role d = []
      | FFunctionCall \<Rightarrow> FunctionCall d = None
      | FToolCalls \<Rightarrow> ToolCalls d = []
      | FRefusal \<Rightarrow> Refusal d = [])"

definition member_of :: "delta_field \<Rightarrow> delta_fields \<Rightarrow> json option" where
  "member_of f d = (if field_empty f d then None else Some (field_value f d))"

definition Delta_members :: "delta_fields \<Rightarrow> (string \<times> json) list" where
  "Delta_members d =
     concat (map (\<lambda>(tag, f). case member_of f d of None \<Rightarrow> [] | Some v \<Rightarrow> [(tag, v)]) Delta_tags)"

text \<open>
  How \<^verbatim>\<open>json.Unmarshal\<close> fills the record from an object: the members are taken in
  document order; a key selects the field whose tag name it equals, otherwise the first
  field whose name it matches without regard to (ASCII) letter case, otherwise the member
  is skipped. \<^verbatim>\<open>null\<close> leaves a string untouched and resets a pointer or a slice. A value
  of the wrong shape leaves the field untouched; the first such error is returned after
  the remaining members have been decoded. An object for \<^verbatim>\<open>function_call\<close> and an array
  of objects for \<^verbatim>\<open>tool_calls\<close> replace the field; an array element that is not an
  object counts as of the wrong shape.
\<close>

definition lower_ascii :: "char \<Rightarrow> char" where
  "lower_ascii c =
     (if 65 \<le> (of_char c :: nat) \<and> (of_char c :: nat) \<le> 90 then char_of (of_char c + (32 :: nat))
      else c)"

definition fold_name :: "string \<Rightarrow> string" where
  "fold_name s = map lower_ascii s"

definition find_field :: "string \<Rightarrow> delta_field option" where
  "find_field key =
     (case map_of Delta_tags key of
        Some f \<Rightarrow> Some f
      | None \<Rightarrow> map_of (map (\<lambda>(n, f). (fold_name n, f)) Delta_tags) (fold_name key))"

definition type_error :: error where
  "type_error = JsonError ''json: cannot unmarshal value into Go struct field''"

definition set_string ::
  "json \<Rightarrow> string \<Rightarrow> string \<times> error option" where
  "set_string v old =
     (case v of JNull \<Rightarrow> (old, None) | JStr s \<Rightarrow> (s, None) | _ \<Rightarrow> (old, Some type_error))"

fun as_objects :: "json list \<Rightarrow> object list option" where
  "as_objects [] = Some []"
| "as_objects (JObj ms # xs) = map_option ((#) ms) (as_objects xs)"
| "as_objects (_ # xs) = None"

definition set_field ::
  "delta_field \<Rightarrow> json \<Rightarrow> delta_fields \<Rightarrow>
   delta_fields \<times> error option"
where
  "set_field f v d =
     (case f of
        FContent \<Rightarrow> (let (s, e) = set_string v (Content d) in (d\<lparr>Content := s\<rparr>, e))
      | FReasoningContent \<Rightarrow>
          (let (s, e) = set_string v (ReasoningContent d) in (d\<lparr>ReasoningContent := s\<rparr>, e))
      | FRole \<Rightarrow> (let (s, e) = set_string v (Role d) in (d\<lparr>Role := s\<rparr>, e))
      | FFunctionCall \<Rightarrow>
          (case v of JNull \<Rightarrow> (d\<lparr>FunctionCall := None\<rparr>, None)
                   | JObj ms \<Rightarrow> (d\<lparr>FunctionCall := Some ms\<rparr>, None)
                   | _ \<Rightarrow> (d, Some type_error))
      | FToolCalls \<Rightarrow>
          (case v of JNull \<Rightarrow> (d\<lparr>ToolCalls := []\<rparr>, None)
                   | JArr xs \<Rightarrow>
                       (case as_objects xs of
                          Some os \<Rightarrow> (d\<lparr>ToolCalls := os\<rparr>, None)
                        | None \<Rightarrow> (d, Some type_error))
                   | _ \<Rightarrow> (d, Some type_error))
      | FRefusal \<Rightarrow> (let (s, e) = set_string v (Refusal d) in (d\<lparr>Refusal := s\<rparr>, e)))"

fun decode_members ::
  "(string \<times> json) list \<Rightarrow> delta_fields \<times> error option \<Rightarrow>
   delta_fields \<times> error option"
where
  "decode_members [] acc = acc"
| "decode_members ((k, v) # ms) (d, err) =
     (case find_field k of
        None \<Rightarrow> decode_members ms (d, err)
      | Some f \<Rightarrow>
          (let (d1, e1) = set_field f v d
           in decode_members ms (d1, if err = None then e1 else err)))"

definition syntax_error :: error where
  "syntax_error = JsonError ''invalid character''"

definition Delta_unmarshal ::
  "bytes \<Rightarrow> delta_fields \<Rightarrow> delta_fields \<times> error option"
where
  "Delta_unmarshal data d =
     (case parse_json data of
        None \<Rightarrow> (d, Some syntax_error)
      | Some JNull \<Rightarrow> (d, None)
      | Some (JObj ms) \<Rightarrow> decode_members ms (d, None)
      | Some _ \<Rightarrow> (d, Some type_error))"

text \<open>
  The package at \<^verbatim>\<open>map[string]interface{}\<close>: a map is written as an object with its keys
  sorted; an object is read into a map, a later member replacing an earlier one of the
  same key; \<^verbatim>\<open>null\<close> leaves the map variable nil.
\<close>

definition map_marshal :: "json gomap \<Rightarrow> error + bytes" where
  "map_marshal m = Inr (render (JObj (sorted_list_of_fmap m)))"

definition map_unmarshal :: "bytes \<Rightarrow> error + json gomap option" where
  "map_unmarshal data =
     (case parse_json data of
        None \<Rightarrow> Inl syntax_error
      | Some JNull \<Rightarrow> Inr None
      | Some (JObj ms) \<Rightarrow> Inr (Some (fmap_of_list (rev ms)))
      | Some _ \<Rightarrow> Inl type_error)"

definition go_json :: "(delta_fields, json) json_pkg" where
  "go_json =
     \<lparr>marshal_target = (\<lambda>d. Inr (render (JObj (Delta_members d)))),
      unmarshal_target = Delta_unmarshal,
      marshal_map = map_marshal,
      unmarshal_map = map_unmarshal\<rparr>"

text \<open>
  The two methods of the record. \<^verbatim>\<open>UnmarshalJSON\<close> passes the record (as its alias) and
  its own store; \<^verbatim>\<open>MarshalJSON\<close> passes a view of the record without the store, and the
  store's extension map.
\<close>

definition Delta_UnmarshalJSON ::
  "(delta_fields, json) json_pkg \<Rightarrow> ChatCompletionStreamChoiceDelta \<Rightarrow> bytes \<Rightarrow>
   ChatCompletionStreamChoiceDelta \<times> error option"
where
  "Delta_UnmarshalJSON J r data =
     (let (aux, ext, err) = UnmarshalWithExtensions J data (Fields r) (Store r)
      in (\<lparr>Fields = aux, Store = ext\<rparr>, err))"

definition Delta_MarshalJSON ::
  "(delta_fields, json) json_pkg \<Rightarrow> ChatCompletionStreamChoiceDelta \<Rightarrow> error + bytes"
where
  "Delta_MarshalJSON J r = MarshalWithExtensions J (Fields r) (Extensions (Store r))"

text \<open>
  The contract of the package that the theorems about the record rely on, stated at the
  documents a run meets.
  \<open>writes_record J d\<close>: the package writes \<open>d\<close> as an object of the members
  \<open>Delta_members d\<close>, which it reads back as the map of these members.
  \<open>reads_document J data ms d0\<close>: the package reads \<open>data\<close> as an object of the
  members \<open>ms\<close>, whose keys are distinct, both into a map and into the record \<open>d0\<close>.
  \<open>go_json\<close> meets the contract at every record and every map
  (\<open>go_json_writes_record\<close>, \<open>go_json_reads_merged\<close>).
\<close>

definition writes_record :: "(delta_fields, json) json_pkg \<Rightarrow> delta_fields \<Rightarrow> bool" where
  "writes_record J d =
     (case marshal_target J d of
        Inl err \<Rightarrow> False
      | Inr b \<Rightarrow> unmarshal_map J b = Inr (Some (fmap_of_list (Delta_members d))))"


text \<open>
  A package whose encoder fails at the map type, as \<^verbatim>\<open>json.Marshal\<close> does on a value it
  does not support; it exercises the branch of the decoder that ignores this error.
\<close>

definition no_map_marshal :: "(delta_fields, json) json_pkg" where
  "no_map_marshal = go_json\<lparr>marshal_map := (\<lambda>m. Inl (JsonError ''json: unsupported value''))\<rparr>"

definition empty_store :: "'v RawExtensions" where
  "empty_store = \<lparr>Extensions = None, RawData = [], ExtensionRawData = []\<rparr>"

definition zero_fields :: delta_fields where
  "zero_fields =
     \<lparr>Content = [], ReasoningContent = [], Role = [], FunctionCall = None, ToolCalls = [],
      Refusal = []\<rparr>"

definition zero_delta :: ChatCompletionStreamChoiceDelta where
  "zero_delta = \<lparr>Fields = zero_fields, Store = empty_store\<rparr>"

section \<open>The stream choice record (chat\_stream.go) and the finish reason\<close>

text \<open>
  Modelled from the spec: the type \<^verbatim>\<open>FinishReason\<close>, its method \<^verbatim>\<open>MarshalJSON\<close> and the
  constant \<^verbatim>\<open>FinishReasonNull\<close> are declared in chat.go, which is not among the sources.
  The spec (section 6): "\<^verbatim>\<open>finish_reason\<close> serializes as JSON \<^verbatim>\<open>null\<close> when unset or empty,
  never as the empty string"; the test \<^verbatim>\<open>TestFinishReason\<close> expects \<^verbatim>\<open>null\<close> for the
  constant and for the empty string, and the reason between quotes for the other
  constants. The value of the constant is the parameter \<open>null_reason\<close>.
\<close>

definition FinishReason_MarshalJSON :: "string \<Rightarrow> string \<Rightarrow> error + bytes" where
  "FinishReason_MarshalJSON null_reason r =
     (if r = null_reason \<or> r = [] then Inr ''null'' else Inr (quote r))"

text \<open>
  Where a field has a \<^verbatim>\<open>MarshalJSON\<close> method the package calls it and writes the document
  the method returns; an error of the method, or bytes that are no document, fail the
  whole encoding.
\<close>

definition marshaler_value :: "error + bytes \<Rightarrow> error + json" where
  "marshaler_value res =
     (case res of
        Inl err \<Rightarrow> Inl err
      | Inr b \<Rightarrow> (case parse_json b of None \<Rightarrow> Inl syntax_error | Some j \<Rightarrow> Inr j))"

text \<open>
  \<^verbatim>\<open>ChatCompletionStreamChoice\<close>: five tagged fields and the embedded store. The log
  probabilities and the content filter results are kept as the members of the objects
  they are written as (the declaration of \<^verbatim>\<open>ContentFilterResults\<close> is not among the
  sources). \<^verbatim>\<open>finish_reason\<close>, \<^verbatim>\<open>index\<close> and \<^verbatim>\<open>delta\<close> are not tagged \<^verbatim>\<open>omitempty\<close> and
  are always written; \<^verbatim>\<open>omitempty\<close> has no effect on a struct, so the content filter
  results are always written too.
\<close>

record choice_fields =
  Index :: int
  Delta :: ChatCompletionStreamChoiceDelta
  Logprobs :: "object option"
  FinishReason :: string
  ContentFilterResults :: object

record ChatCompletionStreamChoice =
  ChoiceFields :: choice_fields
  ChoiceStore :: "json RawExtensions"

definition Choice_members :: "string \<Rightarrow> choice_fields \<Rightarrow> error + (string \<times> json) list" where
  "Choice_members null_reason c =
     (case marshaler_value (Delta_MarshalJSON go_json (Delta c)) of
        Inl err \<Rightarrow> Inl err
      | Inr dj \<Rightarrow>
          (case marshaler_value (FinishReason_MarshalJSON null_reason (FinishReason c)) of
             Inl err \<Rightarrow> Inl err
           | Inr fj \<Rightarrow>
               Inr ([(''index'', JNum (Index c)), (''delta'', dj)] @
                    (case Logprobs c of None \<Rightarrow> [] | Some l \<Rightarrow> [(''logprobs'', JObj l)]) @
                    [(''finish_reason'', fj),
                     (''content_filter_results'', JObj (ContentFilterResults c))])))"

datatype choice_field = FIndex | FDelta | FLogprobs | FFinishReason | FContentFilterResults

definition Choice_tags :: "(string \<times> choice_field) list" where
  "Choice_tags =
     [(''index'', FIndex), (''delta'', FDelta), (''logprobs'', FLogprobs),
      (''finish_reason'', FFinishReason), (''content_filter_results'', FContentFilterResults)]"

definition find_choice_field :: "string \<Rightarrow> choice_field option" where
  "find_choice_field key =
     (case map_of Choice_tags key of
        Some f \<Rightarrow> Some f
      | None \<Rightarrow> map_of (map (\<lambda>(n, f). (fold_name n, f)) Choice_tags) (fold_name key))"

text \<open>
  Decoding a member of a choice. The delta has an \<^verbatim>\<open>UnmarshalJSON\<close> method, which the
  package calls on the text of the member (here: its compact form); an error of the
  method ends the decoding at once, where an error of shape is kept and returned at the
  end. The Boolean of the result tells whether decoding goes on.
\<close>

definition set_choice_field ::
  "choice_field \<Rightarrow> json \<Rightarrow> choice_fields \<Rightarrow> choice_fields \<times> error option \<times> bool"
where
  "set_choice_field f v c =
     (case f of
        FIndex \<Rightarrow>
          (case v of JNull \<Rightarrow> (c, None, True)
                   | JNum n \<Rightarrow> (c\<lparr>Index := n\<rparr>, None, True)
                   | _ \<Rightarrow> (c, Some type_error, True))
      | FDelta \<Rightarrow>
          (let (d, err) = Delta_UnmarshalJSON go_json (Delta c) (render v)
           in (c\<lparr>Delta := d\<rparr>, err, err = None))
      | FLogprobs \<Rightarrow>
          (case v of JNull \<Rightarrow> (c\<lparr>Logprobs := None\<rparr>, None, True)
                   | JObj ms \<Rightarrow> (c\<lparr>Logprobs := Some ms\<rparr>, None, True)
                   | _ \<Rightarrow> (c, Some type_error, True))
      | FFinishReason \<Rightarrow>
          (let (s, e) = set_string v (FinishReason c) in (c\<lparr>FinishReason := s\<rparr>, e, True))
      | FContentFilterResults \<Rightarrow>
          (case v of JNull \<Rightarrow> (c, None, True)
                   | JObj ms \<Rightarrow> (c\<lparr>ContentFilterResults := ms\<rparr>, None, True)
                   | _ \<Rightarrow> (c, Some type_error, True)))"

fun decode_choice_members ::
  "(string \<times> json) list \<Rightarrow> choice_fields \<times> error option \<Rightarrow> choice_fields \<times> error option"
where
  "decode_choice_members [] acc = acc"
| "decode_choice_members ((k, v) # ms) (c, err) =
     (case find_choice_field k of
        None \<Rightarrow> decode_choice_members ms (c, err)
      | Some f \<Rightarrow>
          (let (c1, e1, go_on) = set_choice_field f v c
           in if go_on then decode_choice_members ms (c1, if err = None then e1 else err)
              else (c1, e1)))"

definition Choice_unmarshal :: "bytes \<Rightarrow> choice_fields \<Rightarrow> choice_fields \<times> error option" where
  "Choice_unmarshal data c =
     (case parse_json data of
        None \<Rightarrow> (c, Some syntax_error)
      | Some JNull \<Rightarrow> (c, None)
      | Some (JObj ms) \<Rightarrow> decode_choice_members ms (c, None)
      | Some _ \<Rightarrow> (c, Some type_error))"

definition choice_json :: "string \<Rightarrow> (choice_fields, json) json_pkg" where
  "choice_json null_reason =
     \<lparr>marshal_target =
        (\<lambda>c. case Choice_members null_reason c of
                Inl err \<Rightarrow> Inl err
              | Inr ms \<Rightarrow> Inr (render (JObj ms))),
      unmarshal_target = Choice_unmarshal,
      marshal_map = map_marshal,
      unmarshal_map = map_unmarshal\<rparr>"

definition Choice_MarshalJSON ::
  "(choice_fields, json) json_pkg \<Rightarrow> ChatCompletionStreamChoice \<Rightarrow> error + bytes"
where
  "Choice_MarshalJSON J r = MarshalWithExtensions J (ChoiceFields r) (Extensions (ChoiceStore r))"

definition Choice_UnmarshalJSON ::
  "(choice_fields, json) json_pkg \<Rightarrow> ChatCompletionStreamChoice \<Rightarrow> bytes \<Rightarrow>
   ChatCompletionStreamChoice \<times> error option"
where
  "Choice_UnmarshalJSON J r data =
     (let (aux, ext, err) = UnmarshalWithExtensions J data (ChoiceFields r) (ChoiceStore r)
      in (\<lparr>ChoiceFields = aux, ChoiceStore = ext\<rparr>, err))"

definition zero_choice :: choice_fields where
  "zero_choice =
     \<lparr>Index = 0, Delta = zero_delta, Logprobs = None, FinishReason = [],
      ContentFilterResults = []\<rparr>"

section \<open>The chat message\<close>

text \<open>
  Modelled from the spec: the types \<^verbatim>\<open>ChatCompletionMessage\<close> and \<^verbatim>\<open>ChatMessagePart\<close>, the
  methods \<^verbatim>\<open>MarshalJSON\<close> and \<^verbatim>\<open>UnmarshalJSON\<close> of the message and the error
  \<^verbatim>\<open>ErrContentFieldsMisused\<close> are declared in chat.go, which is not among the sources. The
  spec (section 6): a message is "either \<^verbatim>\<open>{"role": string, "content": string, ...}\<close>
  (single-content form) or \<^verbatim>\<open>{"role": string, "content": [part, ...], ...}\<close>
  (multi-content form); a message carrying both a non-empty single content value and a
  non-empty multi-content sequence is invalid and must fail encoding"; (section 7) the
  failure is "surfaced immediately, encode aborts, no partial bytes returned". The test
  \<^verbatim>\<open>TestMultipartChatMessageSerialization\<close> expects \<^verbatim>\<open>{"role":"user"}\<close> for a message with a
  role and an empty part sequence. The model keeps the role and the two content forms, a
  part as the members of the object it is written as, and routes the encoding through
  \<^verbatim>\<open>MarshalWithExtensions\<close> as the records of chat\_stream.go do.
\<close>

record message_fields =
  MsgRole :: string
  MsgContent :: string
  MultiContent :: "object list"

record ChatCompletionMessage =
  MessageFields :: message_fields
  MessageStore :: "json RawExtensions"

definition Message_members :: "message_fields \<Rightarrow> (string \<times> json) list" where
  "Message_members m =
     [(''role'', JStr (MsgRole m))] @
     (if MultiContent m \<noteq> [] then [(''content'', JArr (map JObj (MultiContent m)))]
      else if MsgContent m \<noteq> [] then [(''content'', JStr (MsgContent m))]
      else [])"

definition Message_MarshalJSON ::
  "(message_fields, json) json_pkg \<Rightarrow> ChatCompletionMessage \<Rightarrow> error + bytes"
where
  "Message_MarshalJSON J r =
     (if MsgContent (MessageFields r) \<noteq> [] \<and> MultiContent (MessageFields r) \<noteq> []
      then Inl ErrContentFieldsMisused
      else MarshalWithExtensions J (MessageFields r) (Extensions (MessageStore r)))"

text \<open>
  Modelled from the spec: decoding a message takes a string under \<^verbatim>\<open>content\<close> as the
  single content and an array of parts as the multi-content sequence.
\<close>

fun decode_message_members ::
  "(string \<times> json) list \<Rightarrow> message_fields \<times> error option \<Rightarrow> message_fields \<times> error option"
where
  "decode_message_members [] acc = acc"
| "decode_message_members ((k, v) # ms) (m, err) =
     (let (m1, e1) =
            (if fold_name k = ''role'' then
               (let (s, e) = set_string v (MsgRole m) in (m\<lparr>MsgRole := s\<rparr>, e))
             else if fold_name k = ''content'' then
               (case v of
                  JNull \<Rightarrow> (m, None)
                | JStr s \<Rightarrow> (m\<lparr>MsgContent := s\<rparr>, None)
                | JArr xs \<Rightarrow>
                    (case as_objects xs of
                       Some os \<Rightarrow> (m\<lparr>MultiContent := os\<rparr>, None)
                     | None \<Rightarrow> (m, Some type_error))
                | _ \<Rightarrow> (m, Some type_error))
             else (m, None))
      in decode_message_members ms (m1, if err = None then e1 else err))"

definition Message_unmarshal :: "bytes \<Rightarrow> message_fields \<Rightarrow> message_fields \<times> error option" where
  "Message_unmarshal data m =
     (case parse_json data of
        None \<Rightarrow> (m, Some syntax_error)
      | Some JNull \<Rightarrow> (m, None)
      | Some (JObj ms) \<Rightarrow> decode_message_members ms (m, None)
      | Some _ \<Rightarrow> (m, Some type_error))"

definition message_json :: "(message_fields, json) json_pkg" where
  "message_json =
     \<lparr>marshal_target = (\<lambda>m. Inr (render (JObj (Message_members m)))),
      unmarshal_target = Message_unmarshal,
      marshal_map = map_marshal,
      unmarshal_map = map_unmarshal\<rparr>"

definition content_members :: "(string \<times> json) list \<Rightarrow> (string \<times> json) list" where
  "content_members ms = filter (\<lambda>(k, v). k = ''content'') ms"

section \<open>Basic facts\<close>

lemma len_map_zero_iff: "len_map m = 0 \<longleftrightarrow> range_map m = fmempty"
  by (cases m) (auto simp: len_map_def range_map_def fcard_0_eq, metis fmrestrict_fset_dom fmrestrict_fset_null)

lemma range_map_simps: "range_map None = fmempty" "range_map (Some m) = m"
  by (simp_all add: range_map_def)

lemma len_map_Some_pos: "0 < len_map (Some m) \<longleftrightarrow> m \<noteq> fmempty"
  using len_map_zero_iff [of "Some m"] by (auto simp: range_map_def)

lemma SetRawData_simps:
  "RawData (SetRawData r data) = data"
  "Extensions (SetRawData r data) = Extensions r"
  "ExtensionRawData (SetRawData r data) = ExtensionRawData r"
  by (simp_all add: SetRawData_def)

lemma GetExtension_SetExtension_same: "GetExtension (SetExtension r k v) k = (Some v, True)"
  by (simp add: GetExtension_def SetExtension_def range_map_def Let_def)

lemma GetExtension_SetExtension_other:
  "k' \<noteq> k \<Longrightarrow> GetExtension (SetExtension r k v) k' = GetExtension r k'"
  by (cases "Extensions r") (simp_all add: GetExtension_def SetExtension_def range_map_def Let_def)

lemma GetExtension_absent:
  "k |\<notin>| fmdom (range_map (Extensions r)) \<Longrightarrow> GetExtension r k = (None, False)"
  by (cases "Extensions r") (auto simp: GetExtension_def range_map_def fmdom_notD)

lemma fmdom_SetExtension:
  "fmdom (range_map (Extensions (SetExtension r k v))) = finsert k (fmdom (range_map (Extensions r)))"
  by (cases "Extensions r") (simp_all add: SetExtension_def range_map_def Let_def)

lemma fmdom_foldl_SetExtension:
  "fmdom (range_map (Extensions (foldl (\<lambda>s (k, v). SetExtension s k v) r kvs))) =
   fmdom (range_map (Extensions r)) |\<union>| fset_of_list (map fst kvs)"
  by (induction kvs arbitrary: r) (auto simp: fmdom_SetExtension)

lemma UnmarshalWithExtensions_target_error:
  assumes "unmarshal_target J data t = (t1, Some e)"
  shows "UnmarshalWithExtensions J data t x =
           (t1, x\<lparr>RawData := data\<rparr>, Some (Wrapped ''failed to unmarshal target'' e))"
  using assms by (simp add: UnmarshalWithExtensions_def SetRawData_def)

lemma UnmarshalWithExtensions_map_error:
  assumes "unmarshal_target J data t = (t1, None)" and "unmarshal_map J data = Inl e"
  shows "UnmarshalWithExtensions J data t x =
           (t1, x\<lparr>RawData := data\<rparr>, Some (Wrapped ''failed to unmarshal to map'' e))"
  using assms by (simp add: UnmarshalWithExtensions_def SetRawData_def)

lemma UnmarshalWithExtensions_split:
  assumes "unmarshal_target J data t = (t1, None)" and "unmarshal_map J data = Inr allFields"
    and "ef = fmfilter (\<lambda>key. \<not> known (getKnownFields J t1) key) (range_map allFields)"
  shows "UnmarshalWithExtensions J data t x =
           (t1,
            (if ef = fmempty then x\<lparr>RawData := data\<rparr>
             else case marshal_map J ef of
                    Inr b \<Rightarrow> x\<lparr>RawData := data, Extensions := Some ef, ExtensionRawData := b\<rparr>
                  | Inl e \<Rightarrow> x\<lparr>RawData := data, Extensions := Some ef\<rparr>),
            None)"
  using assms
  by (simp add: UnmarshalWithExtensions_def SetRawData_def Let_def len_map_Some_pos
           split: sum.splits)

lemma UnmarshalWithExtensions_success_cases:
  assumes "UnmarshalWithExtensions J data t x = (t1, x', None)"
  shows "unmarshal_target J data t = (t1, None) \<and> (\<exists>allFields. unmarshal_map J data = Inr allFields)"
  using assms
  by (auto simp: UnmarshalWithExtensions_def Let_def split: prod.splits option.splits sum.splits if_splits)

lemma assign_entries_lookup:
  "distinct (map fst entries) \<Longrightarrow>
   fmlookup (assign_entries entries m) k =
     (case map_of entries k of Some v \<Rightarrow> Some v | None \<Rightarrow> fmlookup m k)"
proof (induction entries arbitrary: m)
  case Nil
  then show ?case by (simp add: assign_entries_def)
next
  case (Cons e entries)
  obtain key val where e: "e = (key, val)" by (cases e)
  have "assign_entries (e # entries) m = assign_entries entries (fmupd key val m)"
    by (simp add: assign_entries_def e)
  moreover have "key \<notin> fst ` set entries" using Cons.prems by (simp add: e)
  then have "map_of entries key = None" by (simp add: map_of_eq_None_iff)
  ultimately show ?case using Cons.IH [of "fmupd key val m"] Cons.prems
    by (auto simp: e split: option.splits)
qed

lemma range_assign_is_union:
  assumes "distinct (map fst entries)" and "fmap_of_list entries = extensions"
  shows "assign_entries entries baseMap = baseMap ++\<^sub>f extensions"
proof (rule fmap_ext)
  fix k
  have "fmlookup extensions k = map_of entries k"
    using assms(2) by (auto simp: fmlookup_of_list)
  then show "fmlookup (assign_entries entries baseMap) k = fmlookup (baseMap ++\<^sub>f extensions) k"
    using assign_entries_lookup [OF assms(1), of baseMap k]
    by (cases "map_of entries k") (auto simp: fmdom_notI fmdomI)
qed

lemma copy_unknown_lookup:
  "distinct (map fst entries) \<Longrightarrow>
   fmlookup (copy_unknown is_known entries m) k =
     (case map_of entries k of
        Some v \<Rightarrow> if is_known k then fmlookup m k else Some v
      | None \<Rightarrow> fmlookup m k)"
proof (induction entries arbitrary: m)
  case Nil
  then show ?case by (simp add: copy_unknown_def)
next
  case (Cons e entries)
  obtain key val where e: "e = (key, val)" by (cases e)
  have step: "copy_unknown is_known (e # entries) m =
      copy_unknown is_known entries (if \<not> is_known key then fmupd key val m else m)"
    by (simp add: copy_unknown_def e)
  have "key \<notin> fst ` set entries" using Cons.prems by (simp add: e)
  then have none: "map_of entries key = None" by (simp add: map_of_eq_None_iff)
  show ?case
    unfolding step using Cons.IH [of "if \<not> is_known key then fmupd key val m else m"] Cons.prems none
    by (auto simp: e split: option.splits)
qed

lemma range_copy_is_filter:
  assumes "distinct (map fst entries)" and "fmap_of_list entries = allFields"
  shows "copy_unknown is_known entries fmempty = fmfilter (\<lambda>key. \<not> is_known key) allFields"
proof (rule fmap_ext)
  fix k
  have "fmlookup allFields k = map_of entries k"
    using assms(2) by (auto simp: fmlookup_of_list)
  then show "fmlookup (copy_unknown is_known entries fmempty) k
      = fmlookup (fmfilter (\<lambda>key. \<not> is_known key) allFields) k"
    using copy_unknown_lookup [OF assms(1), of is_known fmempty k]
    by (cases "map_of entries k") auto
qed

section \<open>The extension store: get and set\<close>

text \<open>
  Claim C10. For every store, key \<open>k\<close> and value \<open>v\<close>: \<^verbatim>\<open>GetExtension(k)\<close> right after
  \<^verbatim>\<open>SetExtension(k, v)\<close> returns \<open>v\<close> and \<open>true\<close>; \<^verbatim>\<open>SetExtension(k, v)\<close> leaves what
  \<^verbatim>\<open>GetExtension\<close> returns for every other key unchanged; and a key that is not in the
  store's map, in a store whose map is still nil, or that none of a sequence of
  \<^verbatim>\<open>SetExtension\<close> calls on a nil store has set, is reported as not existing.
\<close>

theorem SetExtension_GetExtension_coherence:
  "GetExtension (SetExtension r k v) k = (Some v, True) \<and>
   (k' \<noteq> k \<longrightarrow> GetExtension (SetExtension r k v) k' = GetExtension r k') \<and>
   (k' |\<notin>| fmdom (range_map (Extensions r)) \<longrightarrow> GetExtension r k' = (None, False)) \<and>
   (k' \<notin> set (map fst kvs) \<longrightarrow>
      GetExtension (foldl (\<lambda>s (k, v). SetExtension s k v) (r\<lparr>Extensions := None\<rparr>) kvs) k'
        = (None, False))"
proof (intro conjI impI)
  show "GetExtension (SetExtension r k v) k = (Some v, True)"
    by (rule GetExtension_SetExtension_same)
next
  assume "k' \<noteq> k"
  then show "GetExtension (SetExtension r k v) k' = GetExtension r k'"
    by (rule GetExtension_SetExtension_other)
next
  assume "k' |\<notin>| fmdom (range_map (Extensions r))"
  then show "GetExtension r k' = (None, False)"
    by (rule GetExtension_absent)
next
  assume "k' \<notin> set (map fst kvs)"
  then have "k' |\<notin>| fmdom (range_map (Extensions
      (foldl (\<lambda>s (k, v). SetExtension s k v) (r\<lparr>Extensions := None\<rparr>) kvs)))"
    by (simp add: fmdom_foldl_SetExtension range_map_simps fset_of_list.rep_eq)
  then show "GetExtension (foldl (\<lambda>s (k, v). SetExtension s k v) (r\<lparr>Extensions := None\<rparr>) kvs) k'
      = (None, False)"
    by (rule GetExtension_absent)
qed

theorem SetExtension_GetExtension_coherence_witness:
  "''b'' \<noteq> ''a'' \<and> ''b'' |\<notin>| fmdom (range_map (Extensions (empty_store :: json RawExtensions))) \<and>
   ''b'' \<notin> set (map fst [(''a'', JNum 1), (''c'', JNull)]) \<and>
   GetExtension (SetExtension empty_store ''a'' (JNum 1)) ''a'' = (Some (JNum 1), True) \<and>
   GetExtension (SetExtension empty_store ''a'' (JNum 1)) ''b'' = (None, False) \<and>
   GetExtension (foldl (\<lambda>s (k, v). SetExtension s k v) ((empty_store :: json RawExtensions)\<lparr>Extensions := None\<rparr>)
        [(''a'', JNum 1), (''c'', JNull)]) ''b'' = (None, False)"
  using SetExtension_GetExtension_coherence
          [of "empty_store :: json RawExtensions" "''a''" "JNum 1" "''b''" "[(''a'', JNum 1), (''c'', JNull)]"]
  by (simp add: empty_store_def range_map_def)

section \<open>Decoding: the raw bytes\<close>

text \<open>
  Claim C7. For every input byte sequence, target, store and behaviour of the JSON
  package, the store that \<^verbatim>\<open>UnmarshalWithExtensions\<close> leaves behind holds the input bytes as
  its raw data, so \<^verbatim>\<open>GetRawData\<close> returns them: whether the decode succeeds or returns an
  error, since the copy is made before the package is called.
\<close>

theorem UnmarshalWithExtensions_stores_raw_data:
  "GetRawData (fst (snd (UnmarshalWithExtensions J data target extensions))) = data"
  by (simp add: UnmarshalWithExtensions_def GetRawData_def Let_def SetRawData_def
           split: prod.splits option.splits sum.splits)

text \<open>The error path on bytes that are no document: the raw data are those bytes.\<close>

lemma raw_data_kept_on_error:
  \<open>UnmarshalWithExtensions go_json ''{"content":'' zero_fields empty_store
     = (zero_fields,
        \<lparr>Extensions = None, RawData = ''{"content":'', ExtensionRawData = []\<rparr>,
        Some (Wrapped ''failed to unmarshal target'' syntax_error))\<close>
  by code_simp

section \<open>Encoding: the fast path\<close>

text \<open>
  Claim C8. When the base serialization of the typed value succeeds and the extension map
  is nil or empty, \<^verbatim>\<open>MarshalWithExtensions\<close> returns the base bytes unchanged, and no merge
  takes place: the result is the same whatever the package would do at the map type.
\<close>

theorem MarshalWithExtensions_fast_path:
  assumes "marshal_target J target = Inr baseData" and "len_map extensions = 0"
  shows "MarshalWithExtensions J target extensions = Inr baseData \<and>
         MarshalWithExtensions (J\<lparr>marshal_map := mm, unmarshal_map := um\<rparr>) target extensions
           = Inr baseData"
  using assms by (simp add: MarshalWithExtensions_def)

theorem MarshalWithExtensions_fast_path_witness:
  \<open>marshal_target go_json (zero_fields\<lparr>Content := ''hi''\<rparr>) = Inr ''{"content":"hi"}'' \<and>
   len_map (Some (fmempty :: json gomap)) = 0 \<and>
   MarshalWithExtensions go_json (zero_fields\<lparr>Content := ''hi''\<rparr>) (Some fmempty)
     = Inr ''{"content":"hi"}''\<close>
proof -
  have a: \<open>marshal_target go_json (zero_fields\<lparr>Content := ''hi''\<rparr>) = Inr ''{"content":"hi"}''\<close>
    by code_simp
  have b: "len_map (Some (fmempty :: json gomap)) = 0"
    by (simp add: len_map_def)
  from MarshalWithExtensions_fast_path [OF a b] a b show ?thesis by simp
qed

section \<open>Decoding: the split into known and extension fields\<close>

text \<open>
  Claim C6. When the package fills the target and reads the payload as a map, at least one
  key of the payload is not a known field, and re-serializing the extension fields fails,
  \<^verbatim>\<open>UnmarshalWithExtensions\<close> still returns no error: the target is populated, the store
  holds the extension fields and the raw bytes, and the extension raw bytes are not
  written, so that they stay empty in a store where they were empty.
\<close>

theorem extension_encode_failure_not_fatal:
  assumes "unmarshal_target J data t = (t1, None)"
    and "unmarshal_map J data = Inr allFields"
    and "ef = fmfilter (\<lambda>key. \<not> known (getKnownFields J t1) key) (range_map allFields)"
    and "ef \<noteq> fmempty"
    and "marshal_map J ef = Inl e"
  shows "UnmarshalWithExtensions J data t x = (t1, x\<lparr>RawData := data, Extensions := Some ef\<rparr>, None) \<and>
         GetExtensionRawData (fst (snd (UnmarshalWithExtensions J data t x))) = GetExtensionRawData x \<and>
         (ExtensionRawData x = [] \<longrightarrow>
            GetExtensionRawData (fst (snd (UnmarshalWithExtensions J data t x))) = [])"
  using UnmarshalWithExtensions_split [OF assms(1,2,3), of x] assms(4,5)
  by (simp add: GetExtensionRawData_def)

theorem extension_encode_failure_not_fatal_witness:
  \<open>unmarshal_target no_map_marshal ''{"content":"hi","vendor":1}'' zero_fields
      = (zero_fields\<lparr>Content := ''hi''\<rparr>, None) \<and>
   unmarshal_map no_map_marshal ''{"content":"hi","vendor":1}''
      = Inr (Some (fmap_of_list [(''vendor'', JNum 1), (''content'', JStr ''hi'')])) \<and>
   fmap_of_list [(''vendor'', JNum 1)] \<noteq> (fmempty :: json gomap) \<and>
   marshal_map no_map_marshal (fmap_of_list [(''vendor'', JNum 1)])
      = Inl (JsonError ''json: unsupported value'') \<and>
   UnmarshalWithExtensions no_map_marshal ''{"content":"hi","vendor":1}'' zero_fields empty_store
      = (zero_fields\<lparr>Content := ''hi''\<rparr>,
         \<lparr>Extensions = Some (fmap_of_list [(''vendor'', JNum 1)]),
          RawData = ''{"content":"hi","vendor":1}'', ExtensionRawData = []\<rparr>,
         None)\<close>
proof -
  have a: \<open>unmarshal_target no_map_marshal ''{"content":"hi","vendor":1}'' zero_fields
      = (zero_fields\<lparr>Content := ''hi''\<rparr>, None)\<close>
    by code_simp
  have b: \<open>unmarshal_map no_map_marshal ''{"content":"hi","vendor":1}''
      = Inr (Some (fmap_of_list [(''vendor'', JNum 1), (''content'', JStr ''hi'')]))\<close>
    by code_simp
  have c: "fmap_of_list [(''vendor'', JNum 1)]
      = fmfilter (\<lambda>key. \<not> known (getKnownFields no_map_marshal (zero_fields\<lparr>Content := ''hi''\<rparr>)) key)
          (range_map (Some (fmap_of_list [(''vendor'', JNum 1), (''content'', JStr ''hi'')])))"
    by code_simp
  have d: "fmap_of_list [(''vendor'', JNum 1)] \<noteq> (fmempty :: json gomap)"
    by code_simp
  have e: "marshal_map no_map_marshal (fmap_of_list [(''vendor'', JNum 1)])
      = Inl (JsonError ''json: unsupported value'')"
    by (simp add: no_map_marshal_def)
  from extension_encode_failure_not_fatal [OF a b c d e, of empty_store] a b d e
  show ?thesis by (simp add: empty_store_def)
qed

text \<open>
  Claim C3, as amended. For every payload that \<^verbatim>\<open>UnmarshalWithExtensions\<close> decodes without
  error, into a store that holds no extension beforehand or from a payload with at least
  one key that is not a known field: the keys of the resulting extension map are exactly
  the keys of the payload outside the known-field set that \<^verbatim>\<open>getKnownFields\<close> computes for
  the populated target, none of them is a known field, and each keeps the payload's value.
\<close>

theorem decoded_extensions_disjoint_from_known:
  assumes "UnmarshalWithExtensions J data t x = (t1, x', None)"
    and "unmarshal_map J data = Inr allFields"
    and "range_map (Extensions x) = fmempty \<or>
         (\<exists>key. key |\<in>| fmdom (range_map allFields) \<and> \<not> known (getKnownFields J t1) key)"
  shows "fmdom' (range_map (Extensions x')) =
           fmdom' (range_map allFields) - {key. known (getKnownFields J t1) key} \<and>
         (\<forall>key \<in> fmdom' (range_map (Extensions x')).
            \<not> known (getKnownFields J t1) key \<and>
            fmlookup (range_map (Extensions x')) key = fmlookup (range_map allFields) key)"
proof -
  define ef where "ef = fmfilter (\<lambda>key. \<not> known (getKnownFields J t1) key) (range_map allFields)"
  have tgt: "unmarshal_target J data t = (t1, None)"
    using UnmarshalWithExtensions_success_cases [OF assms(1)] by simp
  have ext: "range_map (Extensions x') = ef"
  proof (cases "ef = fmempty")
    case True
    then have "\<not> (\<exists>key. key |\<in>| fmdom (range_map allFields) \<and> \<not> known (getKnownFields J t1) key)"
      unfolding ef_def by (metis fmdom_filter ffmember_filter fmdom_empty fempty_iff)
    with assms(3) have "range_map (Extensions x) = fmempty" by simp
    moreover have "x' = x\<lparr>RawData := data\<rparr>"
      using UnmarshalWithExtensions_split [OF tgt assms(2) ef_def, of x] assms(1) True by simp
    ultimately show ?thesis using True by simp
  next
    case False
    then have "Extensions x' = Some ef"
      using UnmarshalWithExtensions_split [OF tgt assms(2) ef_def, of x] assms(1)
      by (auto split: sum.splits)
    then show ?thesis by (simp add: range_map_simps)
  qed
  show ?thesis
    unfolding ext ef_def by (auto simp: fmdom'_filter fmlookup_dom'_iff)
qed

theorem decoded_extensions_disjoint_from_known_witness:
  \<open>UnmarshalWithExtensions go_json ''{"content":"hi","vendor":1}'' zero_fields empty_store
      = (zero_fields\<lparr>Content := ''hi''\<rparr>,
         \<lparr>Extensions = Some (fmap_of_list [(''vendor'', JNum 1)]),
          RawData = ''{"content":"hi","vendor":1}'', ExtensionRawData = ''{"vendor":1}''\<rparr>,
         None) \<and>
   unmarshal_map go_json ''{"content":"hi","vendor":1}''
      = Inr (Some (fmap_of_list [(''vendor'', JNum 1), (''content'', JStr ''hi'')])) \<and>
   range_map (Extensions (empty_store :: json RawExtensions)) = fmempty \<and>
   fmdom' (fmap_of_list [(''vendor'', JNum 1)] :: json gomap)
      = fmdom' (fmap_of_list [(''vendor'', JNum 1), (''content'', JStr ''hi'')] :: json gomap)
          - {key. known (getKnownFields go_json (zero_fields\<lparr>Content := ''hi''\<rparr>)) key}\<close>
proof -
  have a: \<open>UnmarshalWithExtensions go_json ''{"content":"hi","vendor":1}'' zero_fields empty_store
      = (zero_fields\<lparr>Content := ''hi''\<rparr>,
         \<lparr>Extensions = Some (fmap_of_list [(''vendor'', JNum 1)]),
          RawData = ''{"content":"hi","vendor":1}'', ExtensionRawData = ''{"vendor":1}''\<rparr>,
         None)\<close>
    by code_simp
  have b: \<open>unmarshal_map go_json ''{"content":"hi","vendor":1}''
      = Inr (Some (fmap_of_list [(''vendor'', JNum 1), (''content'', JStr ''hi'')]))\<close>
    by code_simp
  have c: "range_map (Extensions (empty_store :: json RawExtensions)) = fmempty"
    by (simp add: empty_store_def range_map_def)
  from decoded_extensions_disjoint_from_known [OF a b disjI1 [OF c]] a b c
  show ?thesis by (simp add: range_map_def)
qed

text \<open>
  Claim C3 as stated, for every store, fails: the extension map is assigned only when the
  payload has an extension field. The first decode below leaves \<^verbatim>\<open>content\<close> in the
  extension map (the field is empty, so it is not known); a second decode into the same
  record, of a payload whose only key is the now known \<^verbatim>\<open>content\<close>, keeps that entry.
\<close>

theorem stale_extensions_survive_decode:
  \<open>UnmarshalWithExtensions go_json ''{"content":""}'' zero_fields empty_store
      = (zero_fields,
         \<lparr>Extensions = Some (fmap_of_list [(''content'', JStr [])]),
          RawData = ''{"content":""}'', ExtensionRawData = ''{"content":""}''\<rparr>,
         None) \<and>
   UnmarshalWithExtensions go_json ''{"content":"hi"}'' zero_fields
      \<lparr>Extensions = Some (fmap_of_list [(''content'', JStr [])]),
       RawData = ''{"content":""}'', ExtensionRawData = ''{"content":""}''\<rparr>
      = (zero_fields\<lparr>Content := ''hi''\<rparr>,
         \<lparr>Extensions = Some (fmap_of_list [(''content'', JStr [])]),
          RawData = ''{"content":"hi"}'', ExtensionRawData = ''{"content":""}''\<rparr>,
         None) \<and>
   unmarshal_map go_json ''{"content":"hi"}''
      = Inr (Some (fmap_of_list [(''content'', JStr ''hi'')])) \<and>
   known (getKnownFields go_json (zero_fields\<lparr>Content := ''hi''\<rparr>)) ''content'' \<and>
   GetExtension \<lparr>Extensions = Some (fmap_of_list [(''content'', JStr [])]),
                 RawData = ''{"content":"hi"}'', ExtensionRawData = ''{"content":""}''\<rparr>
      ''content'' = (Some (JStr []), True)\<close>
proof -
  have a: \<open>UnmarshalWithExtensions go_json ''{"content":""}'' zero_fields empty_store
      = (zero_fields,
         \<lparr>Extensions = Some (fmap_of_list [(''content'', JStr [])]),
          RawData = ''{"content":""}'', ExtensionRawData = ''{"content":""}''\<rparr>,
         None)\<close>
    by code_simp
  have b: \<open>UnmarshalWithExtensions go_json ''{"content":"hi"}'' zero_fields
      \<lparr>Extensions = Some (fmap_of_list [(''content'', JStr [])]),
       RawData = ''{"content":""}'', ExtensionRawData = ''{"content":""}''\<rparr>
      = (zero_fields\<lparr>Content := ''hi''\<rparr>,
         \<lparr>Extensions = Some (fmap_of_list [(''content'', JStr [])]),
          RawData = ''{"content":"hi"}'', ExtensionRawData = ''{"content":""}''\<rparr>,
         None)\<close>
    by code_simp
  have c: \<open>unmarshal_map go_json ''{"content":"hi"}''
      = Inr (Some (fmap_of_list [(''content'', JStr ''hi'')]))\<close>
    by code_simp
  have d: "known (getKnownFields go_json (zero_fields\<lparr>Content := ''hi''\<rparr>)) ''content''"
    by code_simp
  have e: \<open>GetExtension \<lparr>Extensions = Some (fmap_of_list [(''content'', JStr [])]),
                 RawData = ''{"content":"hi"}'', ExtensionRawData = ''{"content":""}''\<rparr>
      ''content'' = (Some (JStr []), True)\<close>
    by (simp add: GetExtension_def)
  from a b c d e show ?thesis by simp
qed

section \<open>Encoding: the merge\<close>

text \<open>
  Claim C2. When the base serialization of the typed value reads back as the map
  \<open>baseMap\<close> and the extension map binds a key that \<open>baseMap\<close> binds too, the output of
  \<^verbatim>\<open>MarshalWithExtensions\<close> is the serialization of a merged map in which that key has the
  extension's value, whose keys are those of the base fields and of the extension fields
  together, and in which every other key of the extension map has the extension's value
  and every remaining key its base value.
\<close>

theorem merge_extension_precedence:
  assumes "marshal_target J target = Inr baseData"
    and "unmarshal_map J baseData = Inr (Some baseMap)"
    and "fmlookup extensions key = Some val"
    and "key |\<in>| fmdom baseMap"
  shows "\<exists>merged.
           MarshalWithExtensions J target (Some extensions) = marshal_map J merged \<and>
           fmlookup merged key = Some val \<and>
           fmdom merged = fmdom baseMap |\<union>| fmdom extensions \<and>
           (\<forall>k. fmlookup merged k =
                  (if k |\<in>| fmdom extensions then fmlookup extensions k else fmlookup baseMap k))"
proof -
  have "extensions \<noteq> fmempty" using assms(3) by auto
  then have "len_map (Some extensions) \<noteq> 0"
    using len_map_Some_pos [of extensions] by simp
  then have "MarshalWithExtensions J target (Some extensions) = marshal_map J (baseMap ++\<^sub>f extensions)"
    using assms(1,2) by (simp add: MarshalWithExtensions_def range_map_simps)
  moreover have "fmlookup (baseMap ++\<^sub>f extensions) key = Some val"
    using assms(3) by (simp add: fmdomI)
  ultimately show ?thesis by (intro exI [of _ "baseMap ++\<^sub>f extensions"]) auto
qed

theorem merge_extension_precedence_witness:
  \<open>marshal_target go_json (zero_fields\<lparr>Content := ''y''\<rparr>) = Inr ''{"content":"y"}'' \<and>
   unmarshal_map go_json ''{"content":"y"}'' = Inr (Some (fmap_of_list [(''content'', JStr ''y'')])) \<and>
   fmlookup (fmap_of_list [(''content'', JStr ''x''), (''vendor'', JNum 1)]) ''content'' = Some (JStr ''x'') \<and>
   ''content'' |\<in>| fmdom (fmap_of_list [(''content'', JStr ''y'')] :: json gomap) \<and>
   MarshalWithExtensions go_json (zero_fields\<lparr>Content := ''y''\<rparr>)
      (Some (fmap_of_list [(''content'', JStr ''x''), (''vendor'', JNum 1)]))
      = Inr ''{"content":"x","vendor":1}'' \<and>
   (\<exists>merged.
      MarshalWithExtensions go_json (zero_fields\<lparr>Content := ''y''\<rparr>)
        (Some (fmap_of_list [(''content'', JStr ''x''), (''vendor'', JNum 1)]))
        = marshal_map go_json merged \<and>
      fmlookup merged ''content'' = Some (JStr ''x'') \<and>
      fmdom merged = fmdom (fmap_of_list [(''content'', JStr ''y'')] :: json gomap)
                       |\<union>| fmdom (fmap_of_list [(''content'', JStr ''x''), (''vendor'', JNum 1)] :: json gomap))\<close>
proof -
  have a: \<open>marshal_target go_json (zero_fields\<lparr>Content := ''y''\<rparr>) = Inr ''{"content":"y"}''\<close>
    by code_simp
  have b: \<open>unmarshal_map go_json ''{"content":"y"}''
      = Inr (Some (fmap_of_list [(''content'', JStr ''y'')]))\<close>
    by code_simp
  have c: "fmlookup (fmap_of_list [(''content'', JStr ''x''), (''vendor'', JNum 1)]) ''content''
      = Some (JStr ''x'')"
    by simp
  have d: "''content'' |\<in>| fmdom (fmap_of_list [(''content'', JStr ''y'')] :: json gomap)"
    by simp
  have e: \<open>MarshalWithExtensions go_json (zero_fields\<lparr>Content := ''y''\<rparr>)
      (Some (fmap_of_list [(''content'', JStr ''x''), (''vendor'', JNum 1)]))
      = Inr ''{"content":"x","vendor":1}''\<close>
    by code_simp
  from merge_extension_precedence [OF a b c d] a b c d e
  show ?thesis by blast
qed

section \<open>The parser inverts the printer\<close>

text \<open>
  Every document that the model prints is read back as the same tree. The proof follows
  the printer: escaped strings, numbers, and then values, with the lists of array
  elements and object members inside.
\<close>


lemma hex_val_hex_digit: "d < 16 \<Longrightarrow> hex_val (hex_digit d) = Some d"
  by (auto simp: hex_val_def hex_digit_def Let_def)

lemma hex_val_zero: "hex_val CHR ''0'' = Some 0"
  by (simp add: hex_val_def)

lemma parse_hex4_escape:
  "n < 256 \<Longrightarrow>
   parse_hex4 (CHR ''0'' # CHR ''0'' # hex_digit (n div 16) # hex_digit (n mod 16) # T) = Some (n, T)"
  by (simp add: parse_hex4_def hex_val_zero hex_val_hex_digit)

lemma parse_string_plain:
  assumes "c \<noteq> CHR 0x22" "c \<noteq> CHR 0x5C" "\<not> (of_char c :: nat) < 32" "T \<noteq> []"
  shows "parse_string (c # T) = map_option (apfst ((#) c)) (parse_string T)"
  using assms by (cases T) simp_all

lemma parse_string_quote: "parse_string (CHR 0x22 # rest) = Some ([], rest)"
  by (cases rest) simp_all

lemma parse_string_escape_char:
  assumes "parse_string T = Some (s, rest)"
  shows "parse_string (escape_char c @ T) = Some (c # s, rest)"
proof -
  have T: "T \<noteq> []" using assms by auto
  consider (dq) "c = CHR 0x22" | (bs) "c = CHR 0x5C" | (nl) "c = CHR 0x0A" | (cr) "c = CHR 0x0D"
    | (tab) "c = CHR 0x09"
    | (uni) "c \<noteq> CHR 0x22" "c \<noteq> CHR 0x5C" "c \<noteq> CHR 0x0A" "c \<noteq> CHR 0x0D" "c \<noteq> CHR 0x09"
            "(of_char c :: nat) < 32 \<or> c = CHR ''<'' \<or> c = CHR ''>'' \<or> c = CHR ''&''"
    | (plain) "c \<noteq> CHR 0x22" "c \<noteq> CHR 0x5C" "c \<noteq> CHR 0x0A" "c \<noteq> CHR 0x0D" "c \<noteq> CHR 0x09"
            "\<not> ((of_char c :: nat) < 32 \<or> c = CHR ''<'' \<or> c = CHR ''>'' \<or> c = CHR ''&'')"
    by blast
  then show ?thesis
  proof cases
    case dq then show ?thesis using assms by (simp add: escape_char_def)
  next
    case bs then show ?thesis using assms by (simp add: escape_char_def)
  next
    case nl then show ?thesis using assms by (simp add: escape_char_def)
  next
    case cr then show ?thesis using assms by (simp add: escape_char_def)
  next
    case tab then show ?thesis using assms by (simp add: escape_char_def)
  next
    case uni
    have lt: "(of_char c :: nat) < 128" using uni(6) by auto
    have esc: "escape_char c = [CHR 0x5C, CHR ''u'', CHR ''0'', CHR ''0'',
        hex_digit (of_char c div 16), hex_digit (of_char c mod 16)]"
      using uni by (simp add: escape_char_def)
    have "parse_hex4 (CHR ''0'' # CHR ''0'' # hex_digit (of_char c div 16) # hex_digit (of_char c mod 16) # T)
        = Some (of_char c, T)"
      using parse_hex4_escape [of "of_char c" T] lt by simp
    then show ?thesis using assms lt by (simp add: esc)
  next
    case plain
    then have "escape_char c = [c]" by (simp add: escape_char_def)
    then show ?thesis using parse_string_plain [of c T] plain T assms by simp
  qed
qed

lemma parse_string_escaped:
  "parse_string (concat (map escape_char s) @ CHR 0x22 # rest) = Some (s, rest)"
proof (induction s)
  case Nil
  then show ?case by (simp add: parse_string_quote)
next
  case (Cons c s)
  then show ?case using parse_string_escape_char [OF Cons.IH, of c] by simp
qed


lemma is_digit_digit_char: "d < 10 \<Longrightarrow> is_digit (digit_char d)"
  by (simp add: is_digit_def digit_char_def)

lemma digit_char_val: "d < 10 \<Longrightarrow> (of_char (digit_char d) :: nat) - 48 = d"
  by (simp add: digit_char_def)

lemma digit_char_zero: "d < 10 \<Longrightarrow> digit_char d = CHR ''0'' \<Longrightarrow> d = 0"
proof -
  assume "d < 10" "digit_char d = CHR ''0''"
  then have "(of_char (digit_char d) :: nat) = of_char CHR ''0''" by simp
  with \<open>d < 10\<close> show "d = 0" by (simp add: digit_char_def)
qed

lemma render_nat_digits: "\<forall>c \<in> set (render_nat n). is_digit c"
proof (induction n rule: render_nat.induct)
  case (1 n)
  show ?case
  proof (cases "n < 10")
    case True
    then show ?thesis by (subst render_nat.simps) (simp add: is_digit_digit_char)
  next
    case False
    then show ?thesis using 1 by (subst render_nat.simps) (simp add: is_digit_digit_char)
  qed
qed

lemma render_nat_nonempty: "render_nat n \<noteq> []"
  by (subst render_nat.simps) simp

lemma digits_val_snoc: "digits_val (ds @ [d]) = 10 * digits_val ds + (of_char d - 48)"
  by (simp add: digits_val_def)

lemma digits_val_render_nat: "digits_val (render_nat n) = n"
proof (induction n rule: render_nat.induct)
  case (1 n)
  show ?case
  proof (cases "n < 10")
    case True
    then show ?thesis by (subst render_nat.simps) (simp add: digits_val_def digit_char_val)
  next
    case False
    then have "digits_val (render_nat (n div 10)) = n div 10" using 1 by simp
    then show ?thesis using False
      by (subst render_nat.simps) (simp add: digits_val_snoc digit_char_val)
  qed
qed

lemma hd_render_nat_zero: "hd (render_nat n) = CHR ''0'' \<Longrightarrow> n = 0"
proof (induction n rule: render_nat.induct)
  case (1 n)
  show ?case
  proof (cases "n < 10")
    case True
    then show ?thesis using 1(2) digit_char_zero [of n] by (subst (asm) render_nat.simps) simp
  next
    case False
    then have "hd (render_nat n) = hd (render_nat (n div 10))"
      by (subst render_nat.simps) (simp add: render_nat_nonempty)
    then have "n div 10 = 0" using 1 False by simp
    then show ?thesis using False by simp
  qed
qed

lemma render_nat_no_leading_zero:
  "\<not> (length (render_nat n) > 1 \<and> hd (render_nat n) = CHR ''0'')"
proof
  assume a: "length (render_nat n) > 1 \<and> hd (render_nat n) = CHR ''0''"
  then have "n = 0" using hd_render_nat_zero by blast
  then have "render_nat n = [digit_char 0]" by (subst render_nat.simps) simp
  with a show False by simp
qed

lemma takeWhile_digits:
  assumes "\<forall>c \<in> set ds. is_digit c" and "number_end rest"
  shows "takeWhile is_digit (ds @ rest) = ds" and "dropWhile is_digit (ds @ rest) = rest"
  using assms by (cases rest; simp add: number_end_def takeWhile_append dropWhile_append)+

lemma parse_nat_render_nat:
  assumes "number_end rest"
  shows "parse_nat (render_nat n @ rest) = Some (n, rest)"
proof -
  have t: "takeWhile is_digit (render_nat n @ rest) = render_nat n"
    and d: "dropWhile is_digit (render_nat n @ rest) = rest"
    using takeWhile_digits [OF render_nat_digits assms] by blast+
  have ok: "\<not> (render_nat n = [] \<or> (length (render_nat n) > 1 \<and> hd (render_nat n) = CHR ''0''))"
    using render_nat_nonempty render_nat_no_leading_zero by blast
  show ?thesis
    unfolding parse_nat_def Let_def t d using ok assms
    by (cases rest) (simp_all add: digits_val_render_nat number_end_def)
qed

lemma hd_render_nat_not_minus: "render_nat n = c # cs \<Longrightarrow> is_digit c"
  using render_nat_digits [of n] by auto

lemma parse_number_render_int:
  assumes "number_end rest"
  shows "parse_number (render_int i @ rest) = Some (JNum i, rest)"
proof (cases "i < 0")
  case True
  then show ?thesis
    using parse_nat_render_nat [OF assms, of "nat (- i)"]
    by (simp add: parse_number_def render_int_def)
next
  case False
  obtain c cs where cs: "render_nat (nat i) = c # cs"
    using render_nat_nonempty [of "nat i"] by (cases "render_nat (nat i)") auto
  then have "is_digit c" by (rule hd_render_nat_not_minus)
  then have "c \<noteq> CHR ''-''" by (auto simp: is_digit_def)
  then show ?thesis
    using parse_nat_render_nat [OF assms, of "nat i"] False cs
    by (simp add: parse_number_def render_int_def)
qed


lemma delim_number_end: "delim rest \<Longrightarrow> number_end rest"
  by (auto simp: delim_def number_end_def is_digit_def split: list.splits)

lemma delim_simps: "delim (CHR '','' # r)" "delim (CHR '']'' # r)" "delim (CHR ''}'' # r)" "delim []"
  by (simp_all add: delim_def)

lemma skip_ws_Cons: "\<not> is_ws c \<Longrightarrow> skip_ws (c # r) = c # r"
  by (simp add: skip_ws_def)

lemma expect_hit: "\<not> is_ws c \<Longrightarrow> expect c (c # r) = Some r"
  by (simp add: expect_def skip_ws_Cons)

lemma expect_miss: "\<not> is_ws d \<Longrightarrow> d \<noteq> c \<Longrightarrow> expect c (d # r) = None"
  by (simp add: expect_def skip_ws_Cons)

lemma is_digit_not_ws: "is_digit c \<Longrightarrow> \<not> is_ws c"
  by (auto simp: is_digit_def is_ws_def)

lemma render_int_first:
  obtains c cs where "render_int i = c # cs" "c = CHR ''-'' \<or> is_digit c"
proof (cases "i < 0")
  case True
  then show ?thesis using that by (simp add: render_int_def)
next
  case False
  obtain c cs where cs: "render_nat (nat i) = c # cs"
    using render_nat_nonempty [of "nat i"] by (cases "render_nat (nat i)") auto
  then have "is_digit c" by (rule hd_render_nat_not_minus)
  then show ?thesis using that cs False by (simp add: render_int_def)
qed

lemma render_first: "\<exists>c cs. render j = c # cs \<and> starts_value c"
proof (cases j)
  case (JNum i)
  obtain c cs where "render_int i = c # cs" "c = CHR ''-'' \<or> is_digit c"
    by (rule render_int_first)
  then show ?thesis using JNum by (auto simp: starts_value_def is_ws_def is_digit_def)
qed (auto simp: starts_value_def is_ws_def quote_def)

lemma parse_value_atom_null:
  "parse_value (Suc n) (''null'' @ rest) = Some (JNull, rest)"
  by (simp add: skip_ws_def is_ws_def)

lemma parse_value_atom_true:
  "parse_value (Suc n) (''true'' @ rest) = Some (JBool True, rest)"
  by (simp add: skip_ws_def is_ws_def)

lemma parse_value_atom_false:
  "parse_value (Suc n) (''false'' @ rest) = Some (JBool False, rest)"
  by (simp add: skip_ws_def is_ws_def)

lemma parse_value_string:
  "parse_value (Suc n) (quote s @ rest) = Some (JStr s, rest)"
  by (simp add: quote_def skip_ws_def is_ws_def parse_string_escaped)

lemma parse_value_number:
  assumes "delim rest"
  shows "parse_value (Suc n) (render_int i @ rest) = Some (JNum i, rest)"
proof -
  obtain c cs where c: "render_int i = c # cs" "c = CHR ''-'' \<or> is_digit c"
    by (rule render_int_first)
  have nws: "\<not> is_ws c" using c(2) by (auto simp: is_ws_def is_digit_def)
  have other: "c \<noteq> CHR ''n''" "c \<noteq> CHR ''t''" "c \<noteq> CHR ''f''" "c \<noteq> CHR 0x22"
    "c \<noteq> CHR ''[''" "c \<noteq> CHR ''{''"
    using c(2) by (auto simp: is_digit_def)
  have "parse_value (Suc n) (c # cs @ rest) = parse_number (c # cs @ rest)"
    using other by (simp add: skip_ws_Cons [OF nws])
  then show ?thesis
    using parse_number_render_int [OF delim_number_end [OF assms], of i] c(1) by simp
qed

lemma commas_first:
  assumes "xs \<noteq> []" and "\<And>x. x \<in> set xs \<Longrightarrow> \<exists>c cs. x = c # cs \<and> starts_value c"
  shows "\<exists>c cs. commas xs = c # cs \<and> starts_value c"
proof (cases xs)
  case Nil
  then show ?thesis using assms by simp
next
  case (Cons x ys)
  then have "x \<in> set xs" by simp
  from assms(2) [OF this] obtain c cs where "x = c # cs" "starts_value c" by blast
  then show ?thesis using Cons by (cases ys) auto
qed

lemma parse_elems_rendered:
  assumes "\<And>x fuel rest. x \<in> set xs \<Longrightarrow> delim rest \<Longrightarrow> length (render x) < fuel \<Longrightarrow>
             parse_value fuel (render x @ rest) = Some (x, rest)"
    and "xs \<noteq> []"
    and "length (commas (map render xs)) + 2 \<le> fuel"
  shows "parse_elems fuel (commas (map render xs) @ CHR '']'' # rest) = Some (xs, rest)"
  using assms
proof (induction xs arbitrary: fuel)
  case Nil
  then show ?case by simp
next
  case (Cons x xs)
  obtain n where fuel: "fuel = Suc n" using Cons.prems(3) by (cases fuel) auto
  show ?case
  proof (cases xs)
    case Nil
    have "parse_value n (render x @ CHR '']'' # rest) = Some (x, CHR '']'' # rest)"
      using Cons.prems(1) [of x "CHR '']'' # rest" n] Cons.prems(3) fuel Nil
      by (simp add: delim_simps)
    then show ?thesis
      using Nil fuel by (simp add: expect_miss expect_hit is_ws_def)
  next
    case (Cons y ys)
    let ?T = "commas (map render (y # ys)) @ CHR '']'' # rest"
    have len: "length (commas (map render (x # y # ys)))
        = length (render x) + 1 + length (commas (map render (y # ys)))"
      by simp
    have "parse_value n (render x @ CHR '','' # ?T) = Some (x, CHR '','' # ?T)"
      using Cons.prems(1) [of x "CHR '','' # ?T" n] Cons.prems(3) fuel Cons len
      by (simp add: delim_simps)
    moreover have "parse_elems n ?T = Some (y # ys, rest)"
      using Cons.IH [of n] Cons.prems(1,3) fuel Cons len by simp
    ultimately show ?thesis
      using Cons fuel by (simp add: expect_hit is_ws_def)
  qed
qed

lemma render_JObj: "render (JObj ms) = CHR ''{'' # commas (map render_member ms) @ ''}''"
proof -
  have "(\<lambda>(k, v). quote k @ CHR '':'' # render v) = render_member"
    by (auto simp: render_member_def fun_eq_iff)
  then show ?thesis by simp
qed

lemma parse_members_rendered:
  assumes "\<And>k v fuel rest. (k, v) \<in> set ms \<Longrightarrow> delim rest \<Longrightarrow> length (render v) < fuel \<Longrightarrow>
             parse_value fuel (render v @ rest) = Some (v, rest)"
    and "ms \<noteq> []"
    and "length (commas (map render_member ms)) + 2 \<le> fuel"
  shows "parse_members fuel (commas (map render_member ms) @ CHR ''}'' # rest) = Some (ms, rest)"
  using assms
proof (induction ms arbitrary: fuel)
  case Nil
  then show ?case by simp
next
  case (Cons m ms)
  obtain k v where m: "m = (k, v)" by (cases m)
  obtain n where fuel: "fuel = Suc n" using Cons.prems(3) by (cases fuel) auto
  have key: "\<And>T. expect (CHR 0x22) (render_member m @ T) = Some (concat (map escape_char k) @ CHR 0x22 # CHR '':'' # render v @ T)"
    by (simp add: render_member_def m quote_def expect_hit is_ws_def)
  have lenm: "length (render v) < length (render_member m)"
    by (simp add: render_member_def m)
  have rec: "parse_members n (commas (map render_member ms) @ CHR ''}'' # rest) = Some (ms, rest)"
    if "ms \<noteq> []" "length (commas (map render_member ms)) + 2 \<le> n"
  proof (rule Cons.IH [OF _ that])
    fix k v fuel rest
    assume "(k, v) \<in> set ms" "delim rest" "length (render v) < fuel"
    then show "parse_value fuel (render v @ rest) = Some (v, rest)"
      using Cons.prems(1) [of k v rest fuel] by simp
  qed
  show ?case
  proof (cases ms)
    case Nil
    have "parse_value n (render v @ CHR ''}'' # rest) = Some (v, CHR ''}'' # rest)"
      using Cons.prems(1) [of k v "CHR ''}'' # rest" n] Cons.prems(3) fuel Nil lenm
      by (simp add: delim_simps m)
    then show ?thesis
      using Nil fuel key [of "CHR ''}'' # rest"]
      by (simp add: parse_string_escaped expect_miss expect_hit is_ws_def m)
  next
    case (Cons y ys)
    let ?T = "commas (map render_member (y # ys)) @ CHR ''}'' # rest"
    have len: "length (commas (map render_member (m # y # ys)))
        = length (render_member m) + 1 + length (commas (map render_member (y # ys)))"
      by simp
    have "parse_value n (render v @ CHR '','' # ?T) = Some (v, CHR '','' # ?T)"
      using Cons.prems(1) [of k v "CHR '','' # ?T" n] Cons.prems(3) fuel Cons len lenm
      by (simp add: delim_simps m)
    moreover have "parse_members n ?T = Some (y # ys, rest)"
      using rec Cons.prems(3) fuel Cons len by simp
    ultimately show ?thesis
      using Cons fuel key [of "CHR '','' # ?T"]
      by (simp add: parse_string_escaped expect_hit is_ws_def m)
  qed
qed

lemma render_member_first: "\<exists>c cs. render_member m = c # cs \<and> starts_value c"
  by (simp add: render_member_def quote_def starts_value_def is_ws_def)

lemma expect_close_miss:
  assumes "s = c # cs" and "starts_value c"
  shows "expect (CHR '']'') (s @ T) = None" and "expect (CHR ''}'') (s @ T) = None"
  using assms by (simp_all add: starts_value_def expect_miss)

lemma parse_value_rendered:
  "delim rest \<Longrightarrow> length (render j) < fuel \<Longrightarrow> parse_value fuel (render j @ rest) = Some (j, rest)"
proof (induction j arbitrary: fuel rest)
  case JNull
  then obtain n where "fuel = Suc n" by (cases fuel) auto
  then show ?case using parse_value_atom_null by simp
next
  case (JBool b)
  then obtain n where "fuel = Suc n" by (cases fuel) auto
  then show ?case using parse_value_atom_true parse_value_atom_false by (cases b) simp_all
next
  case (JNum i)
  then obtain n where "fuel = Suc n" by (cases fuel) auto
  then show ?case using parse_value_number [OF JNum.prems(1)] by simp
next
  case (JStr s)
  then obtain n where "fuel = Suc n" by (cases fuel) auto
  then show ?case using parse_value_string by simp
next
  case (JArr xs)
  obtain n where fuel: "fuel = Suc n" using JArr.prems(2) by (cases fuel) auto
  show ?case
  proof (cases "xs = []")
    case True
    then show ?thesis by (simp add: fuel skip_ws_def is_ws_def expect_hit)
  next
    case False
    have first: "\<exists>c cs. commas (map render xs) = c # cs \<and> starts_value c"
    proof (rule commas_first)
      show "map render xs \<noteq> []" using False by simp
    next
      fix x assume "x \<in> set (map render xs)"
      then show "\<exists>c cs. x = c # cs \<and> starts_value c" using render_first by auto
    qed
    then obtain c cs where c: "commas (map render xs) = c # cs" "starts_value c" by blast
    have miss: "expect (CHR '']'') (commas (map render xs) @ CHR '']'' # rest) = None"
      using expect_close_miss(1) [OF c] .
    have "parse_elems n (commas (map render xs) @ CHR '']'' # rest) = Some (xs, rest)"
    proof (rule parse_elems_rendered [OF _ False])
      fix x fuel rest
      assume "x \<in> set xs" "delim rest" "length (render x) < fuel"
      then show "parse_value fuel (render x @ rest) = Some (x, rest)"
        using JArr.IH by blast
    next
      show "length (commas (map render xs)) + 2 \<le> n"
        using JArr.prems(2) fuel by simp
    qed
    then show ?thesis using miss by (simp add: fuel skip_ws_def is_ws_def)
  qed
next
  case (JObj ms)
  obtain n where fuel: "fuel = Suc n" using JObj.prems(2) by (cases fuel) auto
  show ?case
  proof (cases "ms = []")
    case True
    then show ?thesis by (simp add: fuel skip_ws_def is_ws_def expect_hit)
  next
    case False
    have first: "\<exists>c cs. commas (map render_member ms) = c # cs \<and> starts_value c"
    proof (rule commas_first)
      show "map render_member ms \<noteq> []" using False by simp
    next
      fix x assume "x \<in> set (map render_member ms)"
      then show "\<exists>c cs. x = c # cs \<and> starts_value c" using render_member_first by auto
    qed
    then obtain c cs where c: "commas (map render_member ms) = c # cs" "starts_value c" by blast
    have miss: "expect (CHR ''}'') (commas (map render_member ms) @ CHR ''}'' # rest) = None"
      using expect_close_miss(2) [OF c] .
    have "parse_members n (commas (map render_member ms) @ CHR ''}'' # rest) = Some (ms, rest)"
    proof (rule parse_members_rendered [OF _ False])
      fix k v fuel rest
      assume "(k, v) \<in> set ms" "delim rest" "length (render v) < fuel"
      then show "parse_value fuel (render v @ rest) = Some (v, rest)"
        using JObj.IH [of "(k, v)" v] by simp
    next
      show "length (commas (map render_member ms)) + 2 \<le> n"
        using JObj.prems(2) fuel unfolding render_JObj by simp
    qed
    then show ?thesis using miss unfolding render_JObj by (simp add: fuel skip_ws_def is_ws_def)
  qed
qed

lemma parse_json_render: "parse_json (render j) = Some j"
  using parse_value_rendered [of "[]" j "2 * length (render j) + 2"]
  by (simp add: parse_json_def delim_simps skip_ws_def)

section \<open>The stream delta: facts about its members\<close>

lemma set_Delta_members:
  "set (Delta_members d) = {(tag, v). \<exists>f. (tag, f) \<in> set Delta_tags \<and> member_of f d = Some v}"
  by (auto simp: Delta_members_def split: option.splits)

lemma distinct_Delta_tags: "distinct (map fst Delta_tags)"
  by (simp add: Delta_tags_def)

lemma field_empty_iff: "field_empty f d \<longleftrightarrow> member_of f d = None"
  by (simp add: member_of_def)

lemma distinct_concat_members:
  "distinct (map fst ts) \<Longrightarrow>
   distinct (map fst (concat (map (\<lambda>(tag, f). case g f of None \<Rightarrow> [] | Some v \<Rightarrow> [(tag, v)]) ts)))"
proof (induction ts)
  case Nil
  then show ?case by simp
next
  case (Cons t ts)
  obtain tag f where t: "t = (tag, f)" by (cases t)
  have "tag \<notin> fst ` set (concat (map (\<lambda>(tag, f). case g f of None \<Rightarrow> [] | Some v \<Rightarrow> [(tag, v)]) ts))"
    using Cons.prems by (force simp: t split: option.splits)
  with Cons show ?case by (simp add: t split: option.splits)
qed

lemma distinct_Delta_members: "distinct (map fst (Delta_members d))"
  unfolding Delta_members_def by (rule distinct_concat_members [OF distinct_Delta_tags])

lemma known_fmmap_True: "known (fmmap (\<lambda>_. True) m) key \<longleftrightarrow> key |\<in>| fmdom m"
  by (cases "fmlookup m key") (auto simp: known_def fmdom_notI fmdomI)

lemma getKnownFields_writes_record:
  assumes "writes_record J d"
  shows "getKnownFields J d = fmmap (\<lambda>_. True) (fmap_of_list (Delta_members d))"
  using assms by (auto simp: writes_record_def getKnownFields_def range_map_simps split: sum.splits)

lemma known_writes_record:
  assumes "writes_record J d"
  shows "known (getKnownFields J d) key \<longleftrightarrow> key \<in> fst ` set (Delta_members d)"
  by (simp add: getKnownFields_writes_record [OF assms] known_fmmap_True fmdom_of_list
        fset_of_list.rep_eq)

lemma empty_field_not_member:
  assumes "(tag, f) \<in> set Delta_tags" and "field_empty f d"
  shows "tag \<notin> fst ` set (Delta_members d)"
proof
  assume "tag \<in> fst ` set (Delta_members d)"
  then obtain v g where g: "(tag, g) \<in> set Delta_tags" "member_of g d = Some v"
    by (auto simp: set_Delta_members)
  from g(1) assms(1) distinct_Delta_tags have "g = f"
    by (meson eq_key_imp_eq_value)
  with g(2) assms(2) show False by (simp add: field_empty_iff)
qed

lemma distinct_Delta_fields: "distinct (map snd Delta_tags)"
  by (simp add: Delta_tags_def)









lemma fmlookup_of_distinct:
  "distinct (map fst ms) \<Longrightarrow> fmlookup (fmap_of_list ms) k = Some v \<longleftrightarrow> (k, v) \<in> set ms"
  by (simp add: fmlookup_of_list)


section \<open>The stream delta under the contract of the package\<close>

text \<open>
  The next two lemmas hold for every package that meets the contract at the documents
  of the run; \<open>go_json\<close> meets it at every record and every map.
\<close>

lemma empty_field_under_contract:
  assumes "(tag, f) \<in> set Delta_tags"
    and "unmarshal_target J data d0 = (d1, None)"
    and "field_empty f d1"
    and "writes_record J d1"
    and "unmarshal_map J data = Inr (Some allFields)"
    and "fmlookup allFields tag = Some v"
  shows "\<not> known (getKnownFields J d1) tag \<and>
         tag |\<notin>| fmdom (getKnownFields J d1) \<and>
         (\<exists>x'. UnmarshalWithExtensions J data d0 x = (d1, x', None) \<and>
               GetExtension x' tag = (Some v, True))"
proof -
  have nk: "\<not> known (getKnownFields J d1) tag"
    using empty_field_not_member [OF assms(1,3)]
    by (simp add: known_writes_record [OF assms(4)])
  then have nd: "tag |\<notin>| fmdom (getKnownFields J d1)"
    by (simp add: getKnownFields_writes_record [OF assms(4)] known_fmmap_True)
  define ef where "ef = fmfilter (\<lambda>key. \<not> known (getKnownFields J d1) key) (range_map (Some allFields))"
  have look: "fmlookup ef tag = Some v"
    using nk assms(6) by (simp add: ef_def range_map_simps)
  then have ne: "ef \<noteq> fmempty" by auto
  have "\<exists>x'. UnmarshalWithExtensions J data d0 x = (d1, x', None) \<and> Extensions x' = Some ef"
    using UnmarshalWithExtensions_split [OF assms(2,5) ef_def, of x] ne
    by (auto split: sum.splits)
  then show ?thesis using nk nd look by (auto simp: GetExtension_def)
qed


lemma map_of_rev_distinct:
  assumes "distinct (map fst ms)"
  shows "map_of (rev ms) k = map_of ms k"
proof -
  have d: "distinct (map fst (rev ms))" using assms by (simp add: rev_map [symmetric])
  have "map_of (rev ms) k = Some v \<longleftrightarrow> map_of ms k = Some v" for v
    using map_of_eq_Some_iff [OF d, of k v] map_of_eq_Some_iff [OF assms, of k v] by simp
  then show ?thesis by (cases "map_of ms k"; cases "map_of (rev ms) k") auto
qed

lemma fmap_of_list_rev:
  assumes "distinct (map fst ms)"
  shows "fmap_of_list (rev ms) = fmap_of_list ms"
proof (rule fmap_ext)
  fix k
  show "fmlookup (fmap_of_list (rev ms)) k = fmlookup (fmap_of_list ms) k"
    using assms by (simp add: fmlookup_of_list map_of_rev_distinct)
qed

lemma map_unmarshal_render:
  "map_unmarshal (render (JObj ms)) = Inr (Some (fmap_of_list (rev ms)))"
  by (simp add: map_unmarshal_def parse_json_render del: render.simps)

lemma go_json_simps:
  "marshal_target go_json d = Inr (render (JObj (Delta_members d)))"
  "unmarshal_target go_json = Delta_unmarshal"
  "marshal_map go_json = map_marshal"
  "unmarshal_map go_json = map_unmarshal"
  by (simp_all add: go_json_def)

lemma go_json_writes_record: "writes_record go_json d"
  by (simp add: writes_record_def go_json_simps map_unmarshal_render
      fmap_of_list_rev [OF distinct_Delta_members] del: render.simps)

lemma distinct_sorted_list_of_fmap: "distinct (map fst (sorted_list_of_fmap m))"
  by (simp add: sorted_list_of_fmap_def comp_def sorted_list_of_fset.rep_eq)

lemma fmap_of_sorted_list: "fmap_of_list (sorted_list_of_fmap m) = m"
  by (rule fmap_ext) (simp add: fmlookup_of_list)


lemma marshal_with_rendering_package:
  assumes "marshal_target J t = Inr (render (JObj ms))"
    and "marshal_map J = map_marshal"
    and "unmarshal_map J = map_unmarshal"
  shows "\<exists>ms'. MarshalWithExtensions J t ext = Inr (render (JObj ms')) \<and>
           fmap_of_list (rev ms') = fmap_of_list (rev ms) ++\<^sub>f range_map ext"
proof (cases "len_map ext = 0")
  case True
  then have "range_map ext = fmempty" by (simp add: len_map_zero_iff)
  then show ?thesis using assms(1) True
    by (intro exI [of _ ms]) (simp add: MarshalWithExtensions_def del: render.simps)
next
  case False
  let ?m = "fmap_of_list (rev ms) ++\<^sub>f range_map ext"
  have "MarshalWithExtensions J t ext = Inr (render (JObj (sorted_list_of_fmap ?m)))"
    using assms False
    by (simp add: MarshalWithExtensions_def map_unmarshal_render map_marshal_def del: render.simps)
  moreover have "fmap_of_list (rev (sorted_list_of_fmap ?m)) = ?m"
    by (simp add: fmap_of_list_rev [OF distinct_sorted_list_of_fmap] fmap_of_sorted_list)
  ultimately show ?thesis by blast
qed

lemma Delta_MarshalJSON_go: "\<exists>ms. Delta_MarshalJSON go_json r = Inr (render (JObj ms))"
  using marshal_with_rendering_package [of go_json "Fields r" "Delta_members (Fields r)"
      "Extensions (Store r)"]
  by (auto simp: Delta_MarshalJSON_def go_json_simps)

lemma marshaler_value_render: "marshaler_value (Inr (render j)) = Inr j"
  by (simp add: marshaler_value_def parse_json_render)

lemma marshaler_value_finish_reason:
  "marshaler_value (FinishReason_MarshalJSON null_reason r)
     = Inr (if r = [] \<or> r = null_reason then JNull else JStr r)"
proof -
  have "FinishReason_MarshalJSON null_reason r
      = Inr (render (if r = [] \<or> r = null_reason then JNull else JStr r))"
    by (auto simp: FinishReason_MarshalJSON_def)
  then show ?thesis by (simp only: marshaler_value_render)
qed

lemma Choice_members_go:
  "\<exists>dj. Choice_members null_reason c =
     Inr ([(''index'', JNum (Index c)), (''delta'', dj)] @
          (case Logprobs c of None \<Rightarrow> [] | Some l \<Rightarrow> [(''logprobs'', JObj l)]) @
          [(''finish_reason'',
            if FinishReason c = [] \<or> FinishReason c = null_reason then JNull
            else JStr (FinishReason c)),
           (''content_filter_results'', JObj (ContentFilterResults c))])"
proof -
  obtain ms where "Delta_MarshalJSON go_json (Delta c) = Inr (render (JObj ms))"
    using Delta_MarshalJSON_go by blast
  then have "marshaler_value (Delta_MarshalJSON go_json (Delta c)) = Inr (JObj ms)"
    by (simp only: marshaler_value_render)
  then show ?thesis
    by (simp add: Choice_members_def marshaler_value_finish_reason)
qed

text \<open>
  Merge precedence in the bytes that \<^verbatim>\<open>MarshalJSON\<close> of a stream delta returns: read back
  as a map, they bind every key of the extension map to the extension's value, and their
  keys are those of the members of the record and of the extension map together.
\<close>

lemma merge_precedence_in_bytes:
  assumes "Extensions (Store r) = Some ext" and "fmlookup ext key = Some val"
  shows "\<exists>out m. Delta_MarshalJSON go_json r = Inr out \<and>
           map_unmarshal out = Inr (Some m) \<and>
           fmlookup m key = Some val \<and>
           fmdom m = fmdom (fmap_of_list (Delta_members (Fields r))) |\<union>| fmdom ext"
proof -
  obtain ms' where out: "MarshalWithExtensions go_json (Fields r) (Extensions (Store r))
        = Inr (render (JObj ms'))"
      and eq: "fmap_of_list (rev ms')
        = fmap_of_list (rev (Delta_members (Fields r))) ++\<^sub>f range_map (Extensions (Store r))"
    using marshal_with_rendering_package [of go_json "Fields r" "Delta_members (Fields r)"
        "Extensions (Store r)"]
    by (auto simp: go_json_simps)
  have "fmlookup (fmap_of_list (rev ms')) key = Some val"
    unfolding eq using assms by (simp add: range_map_simps fmdomI)
  moreover have "fmdom (fmap_of_list (rev ms'))
      = fmdom (fmap_of_list (Delta_members (Fields r))) |\<union>| fmdom ext"
    unfolding eq using assms(1)
    by (simp add: range_map_simps fmap_of_list_rev [OF distinct_Delta_members])
  ultimately show ?thesis
    using out by (auto simp: Delta_MarshalJSON_def map_unmarshal_render simp del: render.simps)
qed

section \<open>The stream delta: empty fields and the known-field set\<close>

text \<open>
  Claim C4. Every field of the stream delta is tagged \<^verbatim>\<open>omitempty\<close>. Whenever a payload
  is decoded without error and the populated record holds the empty value of a field
  (the empty string for \<^verbatim>\<open>Content\<close>), the tag name of the field is not in the set that
  \<^verbatim>\<open>getKnownFields\<close> returns for the populated record, and a member that the payload
  carries under this name (with an empty value, which leaves the field empty) is stored
  in the extension map by \<^verbatim>\<open>UnmarshalWithExtensions\<close>.
\<close>

theorem omitted_empty_field_becomes_extension:
  assumes "(tag, f) \<in> set Delta_tags"
    and "UnmarshalWithExtensions go_json data d0 x = (d1, x', None)"
    and "field_empty f d1"
    and "unmarshal_map go_json data = Inr (Some allFields)"
    and "fmlookup allFields tag = Some v"
  shows "\<not> known (getKnownFields go_json d1) tag \<and>
         tag |\<notin>| fmdom (getKnownFields go_json d1) \<and>
         GetExtension x' tag = (Some v, True)"
proof -
  have tgt: "unmarshal_target go_json data d0 = (d1, None)"
    using UnmarshalWithExtensions_success_cases [OF assms(2)] by simp
  from empty_field_under_contract
         [OF assms(1) tgt assms(3) go_json_writes_record assms(4,5), of x] assms(2)
  show ?thesis by auto
qed

theorem omitted_empty_field_becomes_extension_witness:
  \<open>(''content'', FContent) \<in> set Delta_tags \<and>
   UnmarshalWithExtensions go_json ''{"content":"","role":"user"}'' zero_fields empty_store
      = (zero_fields\<lparr>Role := ''user''\<rparr>,
         \<lparr>Extensions = Some (fmap_of_list [(''content'', JStr [])]),
          RawData = ''{"content":"","role":"user"}'',
          ExtensionRawData = ''{"content":""}''\<rparr>,
         None) \<and>
   field_empty FContent (zero_fields\<lparr>Role := ''user''\<rparr>) \<and>
   unmarshal_map go_json ''{"content":"","role":"user"}''
      = Inr (Some (fmap_of_list [(''role'', JStr ''user''), (''content'', JStr [])])) \<and>
   \<not> known (getKnownFields go_json (zero_fields\<lparr>Role := ''user''\<rparr>)) ''content'' \<and>
   GetExtension \<lparr>Extensions = Some (fmap_of_list [(''content'', JStr [])]),
                 RawData = ''{"content":"","role":"user"}'',
                 ExtensionRawData = ''{"content":""}''\<rparr> ''content''
      = (Some (JStr []), True)\<close>
proof -
  have a: "(''content'', FContent) \<in> set Delta_tags"
    by (simp add: Delta_tags_def)
  have b: \<open>UnmarshalWithExtensions go_json ''{"content":"","role":"user"}'' zero_fields empty_store
      = (zero_fields\<lparr>Role := ''user''\<rparr>,
         \<lparr>Extensions = Some (fmap_of_list [(''content'', JStr [])]),
          RawData = ''{"content":"","role":"user"}'',
          ExtensionRawData = ''{"content":""}''\<rparr>,
         None)\<close>
    by code_simp
  have c: "field_empty FContent (zero_fields\<lparr>Role := ''user''\<rparr>)"
    by (simp add: field_empty_def zero_fields_def)
  have d: \<open>unmarshal_map go_json ''{"content":"","role":"user"}''
      = Inr (Some (fmap_of_list [(''role'', JStr ''user''), (''content'', JStr [])]))\<close>
    by code_simp
  have e: "fmlookup (fmap_of_list [(''role'', JStr ''user''), (''content'', JStr [])]) ''content''
      = Some (JStr [])"
    by simp
  from omitted_empty_field_becomes_extension [OF a b c d e] a b c d
  show ?thesis by simp
qed

section \<open>The stream delta: encoding and decoding again\<close>




section \<open>The stream choice: the finish reason\<close>

text \<open>
  Claim C9, as amended. For every stream choice whose extension map does not bind
  \<^verbatim>\<open>finish_reason\<close>, the serialization succeeds and its bytes bind \<^verbatim>\<open>finish_reason\<close> to JSON
  \<^verbatim>\<open>null\<close>, not to the empty string, when the finish reason is the empty string or the
  constant \<^verbatim>\<open>FinishReasonNull\<close>, and to the reason as a JSON string for every other finish
  reason.
\<close>

theorem finish_reason_null:
  assumes "''finish_reason'' |\<notin>| fmdom (range_map (Extensions (ChoiceStore r)))"
  shows "\<exists>out m. Choice_MarshalJSON (choice_json null_reason) r = Inr out \<and>
           map_unmarshal out = Inr (Some m) \<and>
           fmlookup m ''finish_reason'' =
             Some (if FinishReason (ChoiceFields r) = [] \<or> FinishReason (ChoiceFields r) = null_reason
                   then JNull else JStr (FinishReason (ChoiceFields r)))"
proof -
  let ?c = "ChoiceFields r"
  let ?fj = "if FinishReason ?c = [] \<or> FinishReason ?c = null_reason then JNull
             else JStr (FinishReason ?c)"
  obtain dj where mem: "Choice_members null_reason ?c =
     Inr ([(''index'', JNum (Index ?c)), (''delta'', dj)] @
          (case Logprobs ?c of None \<Rightarrow> [] | Some l \<Rightarrow> [(''logprobs'', JObj l)]) @
          [(''finish_reason'', ?fj), (''content_filter_results'', JObj (ContentFilterResults ?c))])"
    using Choice_members_go by blast
  define ms where "ms = [(''index'', JNum (Index ?c)), (''delta'', dj)] @
          (case Logprobs ?c of None \<Rightarrow> [] | Some l \<Rightarrow> [(''logprobs'', JObj l)]) @
          [(''finish_reason'', ?fj), (''content_filter_results'', JObj (ContentFilterResults ?c))]"
  have dist: "distinct (map fst ms)"
    by (simp add: ms_def split: option.splits)
  have look: "fmlookup (fmap_of_list (rev ms)) ''finish_reason'' = Some ?fj"
    unfolding fmap_of_list_rev [OF dist]
    by (simp add: ms_def fmlookup_of_list split: option.splits)
  have mt: "marshal_target (choice_json null_reason) ?c = Inr (render (JObj ms))"
    using mem by (simp add: choice_json_def ms_def del: render.simps)
  obtain ms' where out: "MarshalWithExtensions (choice_json null_reason) ?c (Extensions (ChoiceStore r))
        = Inr (render (JObj ms'))"
      and eq: "fmap_of_list (rev ms') = fmap_of_list (rev ms) ++\<^sub>f range_map (Extensions (ChoiceStore r))"
    using marshal_with_rendering_package [OF mt, of "Extensions (ChoiceStore r)"]
    by (auto simp: choice_json_def)
  have "fmlookup (fmap_of_list (rev ms')) ''finish_reason'' = Some ?fj"
    unfolding eq using assms look by simp
  then show ?thesis
    using out by (auto simp: Choice_MarshalJSON_def map_unmarshal_render simp del: render.simps)
qed

theorem finish_reason_null_witness:
  \<open>''finish_reason'' |\<notin>| fmdom (range_map (Some (fmap_of_list [(''vendor'', JNum 1)] :: json gomap))) \<and>
   FinishReason zero_choice = [] \<and>
   Choice_MarshalJSON (choice_json ''null'')
      \<lparr>ChoiceFields = zero_choice,
       ChoiceStore = \<lparr>Extensions = Some (fmap_of_list [(''vendor'', JNum 1)]),
                      RawData = [], ExtensionRawData = []\<rparr>\<rparr>
      = Inr ''{"content_filter_results":{},"delta":{},"finish_reason":null,"index":0,"vendor":1}'' \<and>
   Choice_MarshalJSON (choice_json ''null'') \<lparr>ChoiceFields = zero_choice, ChoiceStore = empty_store\<rparr>
      = Inr ''{"index":0,"delta":{},"finish_reason":null,"content_filter_results":{}}'' \<and>
   Choice_MarshalJSON (choice_json ''null'')
      \<lparr>ChoiceFields = zero_choice\<lparr>FinishReason := ''stop''\<rparr>, ChoiceStore = empty_store\<rparr>
      = Inr ''{"index":0,"delta":{},"finish_reason":"stop","content_filter_results":{}}'' \<and>
   (\<exists>out m. Choice_MarshalJSON (choice_json ''null'')
                \<lparr>ChoiceFields = zero_choice,
                 ChoiceStore = \<lparr>Extensions = Some (fmap_of_list [(''vendor'', JNum 1)]),
                                RawData = [], ExtensionRawData = []\<rparr>\<rparr> = Inr out \<and>
              map_unmarshal out = Inr (Some m) \<and>
              fmlookup m ''finish_reason'' = Some JNull)\<close>
proof -
  let ?r = "\<lparr>ChoiceFields = zero_choice,
             ChoiceStore = \<lparr>Extensions = Some (fmap_of_list [(''vendor'', JNum 1)] :: json gomap),
                            RawData = [], ExtensionRawData = []\<rparr>\<rparr>"
  have a: "''finish_reason'' |\<notin>| fmdom (range_map (Extensions (ChoiceStore ?r)))"
    by (simp add: range_map_def)
  have b: "FinishReason (ChoiceFields ?r) = []"
    by (simp add: zero_choice_def)
  have c: \<open>Choice_MarshalJSON (choice_json ''null'') ?r
      = Inr ''{"content_filter_results":{},"delta":{},"finish_reason":null,"index":0,"vendor":1}''\<close>
    by code_simp
  have d: \<open>Choice_MarshalJSON (choice_json ''null'') \<lparr>ChoiceFields = zero_choice, ChoiceStore = empty_store\<rparr>
      = Inr ''{"index":0,"delta":{},"finish_reason":null,"content_filter_results":{}}''\<close>
    by code_simp
  have e: \<open>Choice_MarshalJSON (choice_json ''null'')
      \<lparr>ChoiceFields = zero_choice\<lparr>FinishReason := ''stop''\<rparr>, ChoiceStore = empty_store\<rparr>
      = Inr ''{"index":0,"delta":{},"finish_reason":"stop","content_filter_results":{}}''\<close>
    by code_simp
  from finish_reason_null [OF a, of "''null''"] a b c d e
  show ?thesis by (simp add: range_map_def)
qed

text \<open>
  Claim C9 as stated fails in two ways. An extension named \<^verbatim>\<open>finish_reason\<close> replaces
  the member on encoding, so that a choice with an empty finish reason and the extension
  \<^verbatim>\<open>finish_reason\<close> bound to the empty string is written with \<^verbatim>\<open>"finish_reason":""\<close>. And
  with the string \<^verbatim>\<open>null\<close> for the constant \<^verbatim>\<open>FinishReasonNull\<close>, this non-empty finish
  reason is written as \<^verbatim>\<open>null\<close>, not between quotes, as \<^verbatim>\<open>TestFinishReason\<close> expects.
\<close>

theorem finish_reason_not_always_null:
  \<open>FinishReason zero_choice = [] \<and>
   Choice_MarshalJSON (choice_json ''null'')
      \<lparr>ChoiceFields = zero_choice,
       ChoiceStore = \<lparr>Extensions = Some (fmap_of_list [(''finish_reason'', JStr [])]),
                      RawData = [], ExtensionRawData = []\<rparr>\<rparr>
      = Inr ''{"content_filter_results":{},"delta":{},"finish_reason":"","index":0}'' \<and>
   ''null'' \<noteq> [] \<and>
   FinishReason_MarshalJSON ''null'' ''null'' = Inr ''null'' \<and>
   Choice_MarshalJSON (choice_json ''null'')
      \<lparr>ChoiceFields = zero_choice\<lparr>FinishReason := ''null''\<rparr>, ChoiceStore = empty_store\<rparr>
      = Inr ''{"index":0,"delta":{},"finish_reason":null,"content_filter_results":{}}''\<close>
  by code_simp

section \<open>The chat message: content exclusivity\<close>

text \<open>
  Claim C5. Encoding a chat message with a non-empty single content and a non-empty
  multi-content sequence fails with \<^verbatim>\<open>ErrContentFieldsMisused\<close> and returns no bytes,
  whatever the package. Encoding a message with at most one of the two forms set
  succeeds; the members written for the message hold one \<^verbatim>\<open>content\<close> member, of the form
  that is set, and the other form is not written; and unless an extension is named
  \<^verbatim>\<open>content\<close> the bytes bind \<^verbatim>\<open>content\<close> to the form that is set, an array of parts or a
  string, and to nothing when neither is set.
\<close>

theorem content_exclusivity:
  "(MsgContent (MessageFields r) \<noteq> [] \<and> MultiContent (MessageFields r) \<noteq> [] \<longrightarrow>
      Message_MarshalJSON J r = Inl ErrContentFieldsMisused) \<and>
   (MsgContent (MessageFields r) = [] \<or> MultiContent (MessageFields r) = [] \<longrightarrow>
      (\<exists>out m. Message_MarshalJSON message_json r = Inr out \<and>
         map_unmarshal out = Inr (Some m) \<and>
         (''content'' |\<notin>| fmdom (range_map (Extensions (MessageStore r))) \<longrightarrow>
            fmlookup m ''content'' =
              (if MultiContent (MessageFields r) \<noteq> []
               then Some (JArr (map JObj (MultiContent (MessageFields r))))
               else if MsgContent (MessageFields r) \<noteq> []
               then Some (JStr (MsgContent (MessageFields r)))
               else None)))) \<and>
   (MsgContent (MessageFields r) \<noteq> [] \<and> MultiContent (MessageFields r) = [] \<longrightarrow>
      content_members (Message_members (MessageFields r))
        = [(''content'', JStr (MsgContent (MessageFields r)))]) \<and>
   (MsgContent (MessageFields r) = [] \<and> MultiContent (MessageFields r) \<noteq> [] \<longrightarrow>
      content_members (Message_members (MessageFields r))
        = [(''content'', JArr (map JObj (MultiContent (MessageFields r))))])"
proof (intro conjI impI)
  assume "MsgContent (MessageFields r) \<noteq> [] \<and> MultiContent (MessageFields r) \<noteq> []"
  then show "Message_MarshalJSON J r = Inl ErrContentFieldsMisused"
    by (simp add: Message_MarshalJSON_def)
next
  assume one: "MsgContent (MessageFields r) = [] \<or> MultiContent (MessageFields r) = []"
  let ?f = "MessageFields r"
  let ?ext = "Extensions (MessageStore r)"
  have dist: "distinct (map fst (Message_members ?f))"
    by (simp add: Message_members_def)
  have mt: "marshal_target message_json ?f = Inr (render (JObj (Message_members ?f)))"
    by (simp add: message_json_def)
  obtain ms' where out: "MarshalWithExtensions message_json ?f ?ext = Inr (render (JObj ms'))"
      and eq: "fmap_of_list (rev ms') = fmap_of_list (rev (Message_members ?f)) ++\<^sub>f range_map ?ext"
    using marshal_with_rendering_package [OF mt, of ?ext]
    by (auto simp: message_json_def)
  have res: "Message_MarshalJSON message_json r = Inr (render (JObj ms'))"
    using one out by (auto simp: Message_MarshalJSON_def)
  have look: "fmlookup (fmap_of_list (rev ms')) ''content'' =
      (if MultiContent ?f \<noteq> [] then Some (JArr (map JObj (MultiContent ?f)))
       else if MsgContent ?f \<noteq> [] then Some (JStr (MsgContent ?f)) else None)"
    if "''content'' |\<notin>| fmdom (range_map ?ext)"
    unfolding eq fmap_of_list_rev [OF dist] using that
    by (simp add: fmlookup_of_list Message_members_def)
  show "\<exists>out m. Message_MarshalJSON message_json r = Inr out \<and>
         map_unmarshal out = Inr (Some m) \<and>
         (''content'' |\<notin>| fmdom (range_map ?ext) \<longrightarrow>
            fmlookup m ''content'' =
              (if MultiContent ?f \<noteq> [] then Some (JArr (map JObj (MultiContent ?f)))
               else if MsgContent ?f \<noteq> [] then Some (JStr (MsgContent ?f)) else None))"
    using res look by (auto simp: map_unmarshal_render simp del: render.simps)
next
  assume "MsgContent (MessageFields r) \<noteq> [] \<and> MultiContent (MessageFields r) = []"
  then show "content_members (Message_members (MessageFields r))
      = [(''content'', JStr (MsgContent (MessageFields r)))]"
    by (simp add: content_members_def Message_members_def)
next
  assume "MsgContent (MessageFields r) = [] \<and> MultiContent (MessageFields r) \<noteq> []"
  then show "content_members (Message_members (MessageFields r))
      = [(''content'', JArr (map JObj (MultiContent (MessageFields r))))]"
    by (simp add: content_members_def Message_members_def)
qed

theorem content_exclusivity_witness:
  \<open>Message_MarshalJSON message_json
      \<lparr>MessageFields = \<lparr>MsgRole = ''user'', MsgContent = ''some-text'',
                        MultiContent = [[(''type'', JStr ''text''), (''text'', JStr ''nice-text'')]]\<rparr>,
       MessageStore = empty_store\<rparr>
      = Inl ErrContentFieldsMisused \<and>
   Message_MarshalJSON message_json
      \<lparr>MessageFields = \<lparr>MsgRole = ''user'', MsgContent = ''Hello'', MultiContent = []\<rparr>,
       MessageStore = empty_store\<rparr>
      = Inr ''{"role":"user","content":"Hello"}'' \<and>
   Message_MarshalJSON message_json
      \<lparr>MessageFields = \<lparr>MsgRole = ''user'', MsgContent = [],
                        MultiContent = [[(''type'', JStr ''text''), (''text'', JStr ''nice-text'')]]\<rparr>,
       MessageStore = \<lparr>Extensions = Some (fmap_of_list [(''conversation_id'', JStr ''conv_67890'')]),
                       RawData = [], ExtensionRawData = []\<rparr>\<rparr>
      = Inr ''{"content":[{"type":"text","text":"nice-text"}],"conversation_id":"conv_67890","role":"user"}'' \<and>
   ''content'' |\<notin>| fmdom (range_map (Extensions (empty_store :: json RawExtensions))) \<and>
   (\<exists>out m. Message_MarshalJSON message_json
                \<lparr>MessageFields = \<lparr>MsgRole = ''user'', MsgContent = ''Hello'', MultiContent = []\<rparr>,
                 MessageStore = empty_store\<rparr> = Inr out \<and>
              map_unmarshal out = Inr (Some m) \<and>
              fmlookup m ''content'' = Some (JStr ''Hello''))\<close>
proof -
  let ?part = "[(''type'', JStr ''text''), (''text'', JStr ''nice-text'')]"
  let ?both = "\<lparr>MessageFields = \<lparr>MsgRole = ''user'', MsgContent = ''some-text'', MultiContent = [?part]\<rparr>,
                 MessageStore = empty_store\<rparr>"
  let ?single = "\<lparr>MessageFields = \<lparr>MsgRole = ''user'', MsgContent = ''Hello'', MultiContent = []\<rparr>,
                   MessageStore = empty_store\<rparr>"
  let ?multi = "\<lparr>MessageFields = \<lparr>MsgRole = ''user'', MsgContent = [], MultiContent = [?part]\<rparr>,
                  MessageStore = \<lparr>Extensions = Some (fmap_of_list [(''conversation_id'', JStr ''conv_67890'')]),
                                  RawData = [], ExtensionRawData = []\<rparr>\<rparr>"
  have r1: "Message_MarshalJSON message_json ?both = Inl ErrContentFieldsMisused"
    using content_exclusivity [of ?both message_json] by simp
  have r2: \<open>Message_MarshalJSON message_json ?single = Inr ''{"role":"user","content":"Hello"}''\<close>
    by code_simp
  have r3: \<open>Message_MarshalJSON message_json ?multi
      = Inr ''{"content":[{"type":"text","text":"nice-text"}],"conversation_id":"conv_67890","role":"user"}''\<close>
    by code_simp
  have n: "''content'' |\<notin>| fmdom (range_map (Extensions (empty_store :: json RawExtensions)))"
    by (simp add: range_map_def empty_store_def)
  have r4: "\<exists>out m. Message_MarshalJSON message_json ?single = Inr out \<and>
              map_unmarshal out = Inr (Some m) \<and> fmlookup m ''content'' = Some (JStr ''Hello'')"
    using content_exclusivity [of ?single message_json] n by simp
  from r1 r2 r3 n r4 show ?thesis by simp
qed

end
